theory Spec2Isabelle
  imports Complex_Main "HOL-Library.Word"
begin

unbundle bit_operations_syntax

section \<open>Numbers\<close>

text \<open>
  The program is TypeScript: every number is a JavaScript number, a double. The
  embedding reads a number as a \<^typ>\<open>real\<close>, every value finite, and a number that
  the code has made integral (\<open>Math.floor\<close>, \<open>Math.ceil\<close>, a loop counter, a table
  entry) as an \<^typ>\<open>int\<close>. Arithmetic is exact, except in \<open>setLines\<close>, where the
  rounding of a double decides how many points the grid has: there every operation is
  rounded by \<open>fl\<close> below. The bitwise operators of JavaScript work on the 32-bit two's
  complement reading of their operands (\<open>ToInt32\<close>); that conversion is written out.
\<close>

definition to_int32 :: "int \<Rightarrow> int" where
  "to_int32 v = signed_take_bit 31 v"

definition js_and :: "int \<Rightarrow> int \<Rightarrow> int" where
  "js_and a b = to_int32 a AND to_int32 b"

definition js_or :: "int \<Rightarrow> int \<Rightarrow> int" where
  "js_or a b = to_int32 a OR to_int32 b"

definition js_xor :: "int \<Rightarrow> int \<Rightarrow> int" where
  "js_xor a b = to_int32 a XOR to_int32 b"

definition js_shl :: "int \<Rightarrow> nat \<Rightarrow> int" where
  "js_shl a k = to_int32 (push_bit (k mod 32) (to_int32 a))"

definition js_shr :: "int \<Rightarrow> nat \<Rightarrow> int" where
  "js_shr a k = drop_bit (k mod 32) (to_int32 a)"

text \<open>The remainder operator \<open>%\<close> takes the sign of the dividend.\<close>

definition js_rem :: "int \<Rightarrow> int \<Rightarrow> int" where
  "js_rem a b = sgn a * (\<bar>a\<bar> mod \<bar>b\<bar>)"

text \<open>
  Reading an array literal at an index it does not hold gives \<open>undefined\<close>, here
  \<open>None\<close>.
\<close>

definition js_index :: "'a list \<Rightarrow> int \<Rightarrow> 'a option" where
  "js_index xs i = (if 0 \<le> i \<and> i < int (length xs) then Some (xs ! nat i) else None)"

subsection \<open>Rounding to a double\<close>

text \<open>
  A double holds 53 significant bits with a binary exponent from -1022 to 1023, and an
  operation on doubles returns the exact result rounded to the nearest double, a tie to
  the one with an even last bit. \<open>exponent a\<close> is the exponent of a magnitude \<open>a\<close>:
  the number of halvings that bring it below 2, or of doublings that bring it up to 1,
  both within the range of the format (below \<open>2^-1022\<close> the doubles are evenly spaced).
  \<open>fl x\<close> is the nearest multiple of the spacing \<open>2^(exponent - 52)\<close> at \<open>x\<close>.
  Overflow to an infinity, beyond \<open>2^1024\<close>, is not modelled.
\<close>

definition round_even :: "real \<Rightarrow> int" where
  "round_even r =
     (let f = \<lfloor>r\<rfloor>; d = r - of_int f
      in if d < 1 / 2 then f else if 1 / 2 < d then f + 1 else if even f then f else f + 1)"

fun halvings :: "nat \<Rightarrow> real \<Rightarrow> nat" where
  "halvings 0 a = 0"
| "halvings (Suc n) a = (if 2 \<le> a then Suc (halvings n (a / 2)) else 0)"

fun doublings :: "nat \<Rightarrow> real \<Rightarrow> nat" where
  "doublings 0 a = 0"
| "doublings (Suc n) a = (if a < 1 then Suc (doublings n (a * 2)) else 0)"

definition exponent :: "real \<Rightarrow> int" where
  "exponent a = (if 1 \<le> a then int (halvings 1023 a) else - int (doublings 1022 a))"

definition pow2 :: "int \<Rightarrow> real" where
  "pow2 u = (if 0 \<le> u then 2 ^ nat u else 1 / 2 ^ nat (- u))"

definition fl :: "real \<Rightarrow> real" where
  "fl x = (let u = exponent \<bar>x\<bar> - 52 in of_int (round_even (x / pow2 u)) * pow2 u)"

datatype error = TypeError

section \<open>The noise field\<close>

datatype Grad = Grad real real real

fun dot2 :: "Grad \<Rightarrow> real \<Rightarrow> real \<Rightarrow> real" where
  "dot2 (Grad gx gy gz) x y = gx * x + gy * y"

text \<open>
  \<open>perm\<close> and \<open>gradP\<close> are created by \<open>new Array(512)\<close>, an array of holes, and
  filled by index: a partial map from the index to the entry, a hole being \<open>None\<close>.
\<close>

record Noise =
  grad3 :: "Grad list"
  p :: "int list"
  perm :: "int \<rightharpoonup> int"
  gradP :: "int \<rightharpoonup> Grad"

definition grad3_init :: "Grad list" where
  "grad3_init =
    [Grad 1 1 0, Grad (-1) 1 0, Grad 1 (-1) 0, Grad (-1) (-1) 0,
     Grad 1 0 1, Grad (-1) 0 1, Grad 1 0 (-1), Grad (-1) 0 (-1),
     Grad 0 1 1, Grad 0 (-1) 1, Grad 0 1 (-1), Grad 0 (-1) (-1)]"

definition p_init :: "int list" where
  "p_init =
    [151, 160, 137, 91, 90, 15, 131, 13, 201, 95, 96, 53, 194, 233, 7, 225, 140, 36, 103, 30,
     69, 142, 8, 99, 37, 240, 21, 10, 23, 190, 6, 148, 247, 120, 234, 75, 0, 26, 197, 62, 94, 252, 219,
     203, 117, 35, 11, 32, 57, 177, 33, 88, 237, 149, 56, 87, 174, 20, 125, 136, 171, 168, 68, 175, 74,
     165, 71, 134, 139, 48, 27, 166, 77, 146, 158, 231, 83, 111, 229, 122, 60, 211, 133, 230, 220, 105,
     92, 41, 55, 46, 245, 40, 244, 102, 143, 54, 65, 25, 63, 161, 1, 216, 80, 73, 209, 76, 132, 187, 208,
     89, 18, 169, 200, 196, 135, 130, 116, 188, 159, 86, 164, 100, 109, 198, 173, 186, 3, 64, 52, 217,
     226, 250, 124, 123, 5, 202, 38, 147, 118, 126, 255, 82, 85, 212, 207, 206, 59, 227, 47, 16, 58, 17,
     182, 189, 28, 42, 223, 183, 170, 213, 119, 248, 152, 2, 44, 154, 163, 70, 221, 153, 101, 155, 167,
     43, 172, 9, 129, 22, 39, 253, 19, 98, 108, 110, 79, 113, 224, 232, 178, 185, 112, 104, 218, 246,
     97, 228, 251, 34, 242, 193, 238, 210, 144, 12, 191, 179, 162, 241, 81, 51, 145, 235, 249, 14, 239,
     107, 49, 192, 214, 31, 181, 199, 106, 157, 184, 84, 204, 176, 115, 121, 50, 45, 127, 4, 150, 254,
     138, 236, 205, 93, 222, 114, 67, 29, 24, 72, 243, 141, 128, 195, 78, 66, 215, 61, 156, 180]"

text \<open>
  One turn of the loop of \<open>seed\<close>, at counter \<open>i\<close> with the mixed seed \<open>s\<close>. An
  \<open>undefined\<close> operand of \<open>^\<close> counts as 0. The chained assignment stores at
  \<open>i + 256\<close> and then at \<open>i\<close>.
\<close>

definition seed_v :: "int \<Rightarrow> int list \<Rightarrow> int \<Rightarrow> int" where
  "seed_v s ps i =
     (let pv = (case js_index ps i of Some a \<Rightarrow> a | None \<Rightarrow> 0)
      in if js_and i 1 \<noteq> 0 then js_xor pv (js_and s 255)
         else js_xor pv (js_and (js_shr s 8) 255))"

definition seed_step :: "int \<Rightarrow> nat \<Rightarrow> Noise \<Rightarrow> Noise" where
  "seed_step s i n =
     (let v = seed_v s (p n) (int i)
      in n\<lparr>perm := (perm n)(int i + 256 \<mapsto> v, int i \<mapsto> v),
           gradP := (gradP n)(int i + 256 := js_index (grad3 n) (js_rem v 12),
                              int i := js_index (grad3 n) (js_rem v 12))\<rparr>)"

definition seed_mix :: "real \<Rightarrow> int" where
  "seed_mix seed0 =
     (let seed1 = (if 0 < seed0 \<and> seed0 < 1 then seed0 * 65536 else seed0);
          seed2 = \<lfloor>seed1\<rfloor>
      in if seed2 < 256 then js_or seed2 (js_shl seed2 8) else seed2)"

definition seed :: "real \<Rightarrow> Noise \<Rightarrow> Noise" where
  "seed seed0 n = fold (seed_step (seed_mix seed0)) [0..<256] n"

text \<open>The constructor: the two literal tables, two arrays of 512 holes, then \<open>seed\<close>.\<close>

definition new_Noise :: "real \<Rightarrow> Noise" where
  "new_Noise seed0 =
     seed seed0 \<lparr>grad3 = grad3_init, p = p_init, perm = Map.empty, gradP = Map.empty\<rparr>"

definition fade :: "real \<Rightarrow> real" where
  "fade t = t * t * t * (t * (t * 6 - 15) + 10)"

definition lerp :: "real \<Rightarrow> real \<Rightarrow> real \<Rightarrow> real" where
  "lerp a b t = (1 - t) * a + t * b"

text \<open>
  \<open>perlin2\<close>. The cell coordinate is \<open>Math.floor\<close> of the input, masked by \<open>& 255\<close>.
  A hole of \<open>perm\<close> makes the index into \<open>gradP\<close> \<open>NaN\<close>, which names no entry, and
  calling \<open>dot2\<close> on a missing entry throws a \<open>TypeError\<close>.
\<close>

definition cell :: "real \<Rightarrow> int" where
  "cell v = js_and \<lfloor>v\<rfloor> 255"

definition gradP_at :: "Noise \<Rightarrow> int \<Rightarrow> int option \<Rightarrow> Grad option" where
  "gradP_at n X pv = (case pv of None \<Rightarrow> None | Some k \<Rightarrow> gradP n (X + k))"

definition perlin2 :: "Noise \<Rightarrow> real \<Rightarrow> real \<Rightarrow> error + real" where
  "perlin2 n x0 y0 =
     (let X = cell x0; Y = cell y0;
          x = x0 - of_int \<lfloor>x0\<rfloor>; y = y0 - of_int \<lfloor>y0\<rfloor>
      in case gradP_at n X (perm n Y) of None \<Rightarrow> Inl TypeError | Some g00 \<Rightarrow>
         (case gradP_at n X (perm n (Y + 1)) of None \<Rightarrow> Inl TypeError | Some g01 \<Rightarrow>
         (case gradP_at n (X + 1) (perm n Y) of None \<Rightarrow> Inl TypeError | Some g10 \<Rightarrow>
         (case gradP_at n (X + 1) (perm n (Y + 1)) of None \<Rightarrow> Inl TypeError | Some g11 \<Rightarrow>
            (let n00 = dot2 g00 x y;
                 n01 = dot2 g01 x (y - 1);
                 n10 = dot2 g10 (x - 1) y;
                 n11 = dot2 g11 (x - 1) (y - 1);
                 u = fade x
             in Inr (lerp (lerp n00 n10 u) (lerp n01 n11 u) (fade y)))))))"

text \<open>A noise object after any number of further calls of \<open>seed\<close>.\<close>

definition reseed :: "Noise \<Rightarrow> real list \<Rightarrow> Noise" where
  "reseed n seeds = fold seed seeds n"


section \<open>The grid, the pointer and the configuration\<close>

text \<open>
  A \<open>Point\<close> of the source holds \<open>x\<close>, \<open>y\<close> and the two objects \<open>wave\<close> and
  \<open>cursor\<close>; no two points share such an object, so their fields are fields of the
  point here.
\<close>

record Point =
  pt_x :: real
  pt_y :: real
  wave_x :: real
  wave_y :: real
  cursor_x :: real
  cursor_y :: real
  cursor_vx :: real
  cursor_vy :: real

record MouseState =
  m_x :: real
  m_y :: real
  m_lx :: real
  m_ly :: real
  m_sx :: real
  m_sy :: real
  m_v :: real
  m_vs :: real
  m_a :: real
  m_set :: bool

record Rect =
  rect_width :: real
  rect_height :: real
  rect_left :: real
  rect_top :: real

record Config =
  lineColor :: string
  waveSpeedX :: real
  waveSpeedY :: real
  waveAmpX :: real
  waveAmpY :: real
  friction :: real
  tension :: real
  maxCursorMove :: real
  xGap :: real
  yGap :: real
  autoWaveIntensity :: real
  autoWaveSpeed :: real

definition config :: Config where
  "config = \<lparr>lineColor = ''rgba(156, 163, 175, 0.25)'',
     waveSpeedX = 0.008, waveSpeedY = 0.005, waveAmpX = 20, waveAmpY = 15,
     friction = 0.94, tension = 0.003, maxCursorMove = 60, xGap = 16, yGap = 40,
     autoWaveIntensity = 0.8, autoWaveSpeed = 0.001\<rparr>"

subsection \<open>setLines\<close>

text \<open>
  \<open>Math.ceil(a / b)\<close> for doubles \<open>a\<close> and \<open>b\<close>: the ceiling of the rounded
  quotient. JavaScript divides by zero without an error: the quotient is an infinity, or
  \<open>NaN\<close> for \<open>0 / 0\<close>.
\<close>

datatype quotient = Finite int | PosInfinity | NegInfinity | NaN

definition ceil_div :: "real \<Rightarrow> real \<Rightarrow> quotient" where
  "ceil_div a b =
     (if b \<noteq> 0 then Finite \<lceil>fl (a / b)\<rceil>
      else if 0 < a then PosInfinity
      else if a < 0 then NegInfinity
      else NaN)"

text \<open>
  The counter values of \<open>for (let i = 0; i <= total; i++)\<close>. With \<open>total\<close> infinite
  the loop does not end (\<open>None\<close>); a comparison with \<open>NaN\<close> is false. The counter is
  an integer, and \<open>i++\<close> is exact on it (as it is on a double below \<open>2^53\<close>).
\<close>

fun counter :: "quotient \<Rightarrow> int list option" where
  "counter (Finite n) = Some [0..n]"
| "counter PosInfinity = None"
| "counter NegInfinity = Some []"
| "counter NaN = Some []"

text \<open>The value of a count that is used in arithmetic: only a finite one reaches a point.\<close>

fun count_value :: "quotient \<Rightarrow> real" where
  "count_value (Finite n) = of_int n"
| "count_value _ = 0"

definition new_point :: "real \<Rightarrow> real \<Rightarrow> Point" where
  "new_point x y = \<lparr>pt_x = x, pt_y = y, wave_x = 0, wave_y = 0,
     cursor_x = 0, cursor_y = 0, cursor_vx = 0, cursor_vy = 0\<rparr>"

text \<open>
  \<open>setLines\<close> builds the grid from the bounding rectangle, in double arithmetic;
  \<open>None\<close> when a loop of it does not end. The inner loop runs once for each turn of the outer one, so it is
  reached only when the outer loop has a turn.
\<close>

definition setLines :: "Config \<Rightarrow> Rect \<Rightarrow> Point list list option" where
  "setLines c b =
     (let width = rect_width b; height = rect_height b;
          oWidth = fl (width + 100);
          oHeight = fl (height + 50);
          totalLines = ceil_div oWidth (xGap c);
          totalPoints = ceil_div oHeight (yGap c);
          xStart = fl (fl (width - fl (xGap c * count_value totalLines)) / 2);
          yStart = fl (fl (height - fl (yGap c * count_value totalPoints)) / 2)
      in case counter totalLines of
           None \<Rightarrow> None
         | Some is \<Rightarrow>
             if is = [] then Some []
             else (case counter totalPoints of
                     None \<Rightarrow> None
                   | Some js \<Rightarrow>
                       Some (map (\<lambda>i. map (\<lambda>j. new_point (fl (xStart + fl (xGap c * of_int i)))
                                                         (fl (yStart + fl (yGap c * of_int j)))) js)
                               is)))"

subsection \<open>movePoints\<close>

definition hypot :: "real \<Rightarrow> real \<Rightarrow> real" where
  "hypot dx dy = sqrt (dx\<^sup>2 + dy\<^sup>2)"

text \<open>The body of the inner \<open>forEach\<close> of \<open>movePoints\<close>, for one point.\<close>

definition movePoint :: "Config \<Rightarrow> Noise \<Rightarrow> MouseState \<Rightarrow> real \<Rightarrow> Point \<Rightarrow> error + Point" where
  "movePoint c noise mouse time pt =
     (case perlin2 noise ((pt_x pt + time * waveSpeedX c) * 0.001)
                         ((pt_y pt + time * waveSpeedY c) * 0.001) of
        Inl e \<Rightarrow> Inl e
      | Inr sample \<Rightarrow>
         (let baseMove = sample * 8;
              autoWaveX = sin (time * autoWaveSpeed c + pt_x pt * 0.005) * autoWaveIntensity c;
              autoWaveY = cos (time * autoWaveSpeed c + pt_y pt * 0.005) * autoWaveIntensity c;
              wx = cos baseMove * waveAmpX c + autoWaveX;
              wy = sin baseMove * waveAmpY c + autoWaveY;
              dx = pt_x pt - m_sx mouse;
              dy = pt_y pt - m_sy mouse;
              dist = hypot dx dy;
              l = max 120 (m_vs mouse);
              s = 1 - dist / l;
              f = cos (dist * 0.005) * s;
              vx1 = (if dist < l then cursor_vx pt + cos (m_a mouse) * f * l * m_vs mouse * 0.0003
                     else cursor_vx pt);
              vy1 = (if dist < l then cursor_vy pt + sin (m_a mouse) * f * l * m_vs mouse * 0.0003
                     else cursor_vy pt);
              vx2 = vx1 + (0 - cursor_x pt) * tension c;
              vy2 = vy1 + (0 - cursor_y pt) * tension c;
              vx3 = vx2 * friction c;
              vy3 = vy2 * friction c;
              cx1 = cursor_x pt + vx3;
              cy1 = cursor_y pt + vy3
          in Inr (pt\<lparr>wave_x := wx, wave_y := wy, cursor_vx := vx3, cursor_vy := vy3,
                     cursor_x := min (maxCursorMove c) (max (- maxCursorMove c) cx1),
                     cursor_y := min (maxCursorMove c) (max (- maxCursorMove c) cy1)\<rparr>)))"

text \<open>\<open>forEach\<close> with a callback that may throw: the first exception ends the loop.\<close>

fun forEach :: "('a \<Rightarrow> error + 'a) \<Rightarrow> 'a list \<Rightarrow> error + 'a list" where
  "forEach f [] = Inr []"
| "forEach f (x # xs) =
     (case f x of
        Inl e \<Rightarrow> Inl e
      | Inr x' \<Rightarrow> (case forEach f xs of Inl e \<Rightarrow> Inl e | Inr xs' \<Rightarrow> Inr (x' # xs')))"

definition movePoints ::
  "Config \<Rightarrow> Noise \<Rightarrow> MouseState \<Rightarrow> real \<Rightarrow> Point list list \<Rightarrow> error + Point list list" where
  "movePoints c noise mouse time lines = forEach (forEach (movePoint c noise mouse time)) lines"

subsection \<open>moved and drawLines\<close>

text \<open>\<open>Math.round\<close> rounds to the nearest integer, a tie upwards.\<close>

definition js_round :: "real \<Rightarrow> int" where
  "js_round v = \<lfloor>v + 1 / 2\<rfloor>"

definition round1 :: "real \<Rightarrow> real" where
  "round1 v = of_int (js_round (v * 10)) / 10"

definition moved :: "Point \<Rightarrow> bool \<Rightarrow> real \<times> real" where
  "moved point withCursor =
     (let x = pt_x point + wave_x point + (if withCursor then cursor_x point else 0);
          y = pt_y point + wave_y point + (if withCursor then cursor_y point else 0)
      in (round1 x, round1 y))"

datatype canvas_op =
    ClearRect real real real real
  | BeginPath
  | StrokeStyle string
  | LineWidth real
  | MoveTo real real
  | LineTo real real
  | Stroke

text \<open>
  The inner \<open>forEach\<close> of \<open>drawLines\<close> over the points of one line, from index \<open>idx\<close>
  on; \<open>points\<close> is the whole line. An entry of the array is an object, which is truthy;
  an index the array does not hold gives \<open>undefined\<close>, which is not.
\<close>

fun draw_points :: "Point list \<Rightarrow> nat \<Rightarrow> Point list \<Rightarrow> canvas_op list" where
  "draw_points points idx [] = []"
| "draw_points points idx (pt # rest) =
     (let isLast = (int idx = int (length points) - 1);
          p1 = moved pt (\<not> isLast)
      in LineTo (fst p1) (snd p1) #
         (case (if isLast then js_index points (int (length points) - 1) else None) of
            Some lastp \<Rightarrow> (let p2 = moved lastp (\<not> isLast) in [MoveTo (fst p2) (snd p2)])
          | None \<Rightarrow> []) @
         draw_points points (Suc idx) rest)"

definition draw_line :: "Point list \<Rightarrow> canvas_op list" where
  "draw_line points =
     (case points of
        [] \<Rightarrow> []
      | first # _ \<Rightarrow> (let p1 = moved first False
                      in MoveTo (fst p1) (snd p1) # draw_points points 0 points))"

section \<open>The component\<close>

text \<open>
  The refs of the component and the variable \<open>lastTime\<close> of its effect. \<open>ctxRef\<close> is
  \<open>None\<close> for \<open>null\<close>, and else holds what has been issued to the drawing context so
  far. \<open>rafHandle\<close> is the last handle that \<open>requestAnimationFrame\<close> returned: the host
  numbers its callbacks upwards.
\<close>

record State =
  boundingRef :: Rect
  noiseRef :: Noise
  linesRef :: "Point list list"
  mouseRef :: MouseState
  ctxRef :: "canvas_op list option"
  frameIdRef :: "nat option"
  lastTime :: real
  rafHandle :: nat

datatype failure = Throws error | NoReturn

definition drawLines :: "Config \<Rightarrow> State \<Rightarrow> State" where
  "drawLines c st =
     (case ctxRef st of
        None \<Rightarrow> st
      | Some issued \<Rightarrow>
          st\<lparr>ctxRef := Some (issued @
                [ClearRect 0 0 (rect_width (boundingRef st)) (rect_height (boundingRef st)),
                 BeginPath, StrokeStyle (lineColor c), LineWidth 1] @
                concat (map draw_line (linesRef st)) @ [Stroke])\<rparr>)"

text \<open>\<open>frameIdRef.current = requestAnimationFrame(tick)\<close>.\<close>

definition requestAnimationFrame :: "State \<Rightarrow> State" where
  "requestAnimationFrame st =
     st\<lparr>rafHandle := Suc (rafHandle st), frameIdRef := Some (Suc (rafHandle st))\<rparr>"

text \<open>\<open>Math.atan2(dy, dx)\<close> on finite numbers.\<close>

definition atan2 :: "real \<Rightarrow> real \<Rightarrow> real" where
  "atan2 dy dx =
     (if 0 < dx then arctan (dy / dx)
      else if dx < 0 then (if 0 \<le> dy then arctan (dy / dx) + pi else arctan (dy / dx) - pi)
      else if 0 < dy then pi / 2
      else if dy < 0 then - pi / 2
      else 0)"

text \<open>The part of \<open>tick\<close> that moves the pointer state on by one frame.\<close>

definition advance :: "MouseState \<Rightarrow> MouseState" where
  "advance mouse =
     (let sx = m_sx mouse + (m_x mouse - m_sx mouse) * 0.06;
          sy = m_sy mouse + (m_y mouse - m_sy mouse) * 0.06;
          dx = m_x mouse - m_lx mouse;
          dy = m_y mouse - m_ly mouse;
          d = hypot dx dy;
          vs = m_vs mouse + (d - m_vs mouse) * 0.06
      in mouse\<lparr>m_sx := sx, m_sy := sy, m_v := d, m_vs := min 60 vs,
               m_lx := m_x mouse, m_ly := m_y mouse, m_a := atan2 dy dx\<rparr>)"

definition tick :: "Config \<Rightarrow> real \<Rightarrow> State \<Rightarrow> failure + State" where
  "tick c t st =
     (if t - lastTime st < 33 then Inr (requestAnimationFrame st)
      else
        (let st1 = st\<lparr>lastTime := t, mouseRef := advance (mouseRef st)\<rparr>
         in case movePoints c (noiseRef st1) (mouseRef st1) t (linesRef st1) of
              Inl e \<Rightarrow> Inl (Throws e)
            | Inr moved_lines \<Rightarrow>
                Inr (requestAnimationFrame (drawLines c (st1\<lparr>linesRef := moved_lines\<rparr>)))))"

definition setSize :: "Rect \<Rightarrow> State \<Rightarrow> State" where
  "setSize rect st = st\<lparr>boundingRef := rect\<rparr>"

definition onResize :: "Config \<Rightarrow> Rect \<Rightarrow> State \<Rightarrow> failure + State" where
  "onResize c rect st =
     (let st1 = setSize rect st
      in case setLines c (boundingRef st1) of
           None \<Rightarrow> Inl NoReturn
         | Some grid \<Rightarrow> Inr (st1\<lparr>linesRef := grid\<rparr>))"

definition updateMouse :: "real \<Rightarrow> real \<Rightarrow> State \<Rightarrow> State" where
  "updateMouse x y st =
     (let b = boundingRef st;
          mouse = (mouseRef st)\<lparr>m_x := x - rect_left b, m_y := y - rect_top b\<rparr>
      in st\<lparr>mouseRef :=
              (if \<not> m_set mouse
               then mouse\<lparr>m_sx := m_x mouse, m_sy := m_y mouse,
                           m_lx := m_x mouse, m_ly := m_y mouse, m_set := True\<rparr>
               else mouse)\<rparr>)"

text \<open>
  The refs as the component creates them, with the value \<open>Math.random()\<close> gave for the
  seed, and the effect, which runs once: it takes the drawing context, sizes the canvas
  to the rectangle of the container, builds the grid and asks for the first frame.
\<close>

definition initial :: "real \<Rightarrow> State" where
  "initial random =
     \<lparr>boundingRef = \<lparr>rect_width = 0, rect_height = 0, rect_left = 0, rect_top = 0\<rparr>,
      noiseRef = new_Noise random,
      linesRef = [],
      mouseRef = \<lparr>m_x = -10, m_y = 0, m_lx = 0, m_ly = 0, m_sx = 0, m_sy = 0,
                   m_v = 0, m_vs = 0, m_a = 0, m_set = False\<rparr>,
      ctxRef = None, frameIdRef = None, lastTime = 0, rafHandle = 0\<rparr>"

definition effect :: "Config \<Rightarrow> Rect \<Rightarrow> State \<Rightarrow> failure + State" where
  "effect c rect st =
     (case onResize c rect (st\<lparr>ctxRef := Some []\<rparr>) of
        Inl e \<Rightarrow> Inl e
      | Inr st1 \<Rightarrow> Inr (requestAnimationFrame st1))"

text \<open>What the host delivers to the running component, and a run over a list of it.\<close>

datatype event =
    Frame real
  | MouseMove real real
  | TouchMove "(real \<times> real) list"
  | Resize Rect

fun handle :: "Config \<Rightarrow> event \<Rightarrow> State \<Rightarrow> failure + State" where
  "handle c (Frame t) st = tick c t st"
| "handle c (MouseMove x y) st = Inr (updateMouse x y st)"
| "handle c (TouchMove touches) st =
     (case touches of [] \<Rightarrow> Inr st | (x, y) # _ \<Rightarrow> Inr (updateMouse x y st))"
| "handle c (Resize rect) st = onResize c rect st"

fun run :: "Config \<Rightarrow> State \<Rightarrow> event list \<Rightarrow> failure + State" where
  "run c st [] = Inr st"
| "run c st (e # es) = (case handle c e st of Inl f \<Rightarrow> Inl f | Inr st' \<Rightarrow> run c st' es)"


section \<open>Auxiliary predicates\<close>

text \<open>The indices that the loop of \<open>seed\<close> stores at, for the counter values \<open>xs\<close>.\<close>

definition seeded_key :: "nat list \<Rightarrow> int \<Rightarrow> bool" where
  "seeded_key xs k \<longleftrightarrow> (\<exists>i\<in>set xs. k = int i \<or> k = int i + 256)"

text \<open>The state of a noise object that the constructor built and \<open>seed\<close> changed.\<close>

definition built :: "Noise \<Rightarrow> bool" where
  "built n \<longleftrightarrow> p n = p_init \<and> grad3 n = grad3_init \<and>
     (\<forall>k. \<not> (0 \<le> k \<and> k < 512) \<longrightarrow> perm n k = None \<and> gradP n k = None)"

text \<open>
  The counts, the offsets and the grid that \<open>setLines\<close> computes when no gap is 0,
  named after its variables.
\<close>

definition totalLines :: "Config \<Rightarrow> Rect \<Rightarrow> int" where
  "totalLines c b = \<lceil>fl (fl (rect_width b + 100) / xGap c)\<rceil>"

definition totalPoints :: "Config \<Rightarrow> Rect \<Rightarrow> int" where
  "totalPoints c b = \<lceil>fl (fl (rect_height b + 50) / yGap c)\<rceil>"

definition xStart :: "Config \<Rightarrow> Rect \<Rightarrow> real" where
  "xStart c b = fl (fl (rect_width b - fl (xGap c * of_int (totalLines c b))) / 2)"

definition yStart :: "Config \<Rightarrow> Rect \<Rightarrow> real" where
  "yStart c b = fl (fl (rect_height b - fl (yGap c * of_int (totalPoints c b))) / 2)"

definition lattice :: "Config \<Rightarrow> Rect \<Rightarrow> Point list list" where
  "lattice c b =
     map (\<lambda>i. map (\<lambda>j. new_point (fl (xStart c b + fl (xGap c * of_int i)))
                               (fl (yStart c b + fl (yGap c * of_int j))))
                  [0..totalPoints c b])
         [0..totalLines c b]"

definition cursor_ok :: "Config \<Rightarrow> Point \<Rightarrow> bool" where
  "cursor_ok c pt \<longleftrightarrow>
     \<bar>cursor_x pt\<bar> \<le> maxCursorMove c \<and> \<bar>cursor_y pt\<bar> \<le> maxCursorMove c"

definition wave_ok :: "Config \<Rightarrow> Point \<Rightarrow> bool" where
  "wave_ok c pt \<longleftrightarrow>
     \<bar>wave_x pt\<bar> \<le> waveAmpX c + autoWaveIntensity c \<and>
     \<bar>wave_y pt\<bar> \<le> waveAmpY c + autoWaveIntensity c"

section \<open>Properties of the noise field\<close>

lemma length_p_init: "length p_init = 256"
  by (simp add: p_init_def)

lemma p_init_range: "list_all (\<lambda>a. 0 \<le> a \<and> a < 256) p_init"
  by (simp add: p_init_def)

lemma to_int32_small: "0 \<le> a \<Longrightarrow> a < 256 \<Longrightarrow> to_int32 a = a"
  unfolding to_int32_def
  by (rule signed_take_bit_int_eq_self) simp_all

lemma js_and_255_mod: "js_and a 255 = a mod 256"
proof -
  have m: "(255::int) = mask 8" by (simp add: mask_eq_exp_minus_1)
  have "to_int32 255 = 255" by (rule to_int32_small) simp_all
  then have "js_and a 255 = to_int32 a AND mask 8" by (simp add: js_and_def m)
  also have "\<dots> = take_bit 8 (signed_take_bit 31 a)"
    by (simp add: take_bit_eq_mask to_int32_def)
  also have "\<dots> = take_bit 8 a"
    by (rule take_bit_signed_take_bit) simp
  finally show ?thesis by (simp add: take_bit_eq_mod)
qed

lemma js_and_255_range: "0 \<le> js_and a 255 \<and> js_and a 255 < 256"
  by (simp add: js_and_255_mod)

lemma js_xor_range:
  assumes "0 \<le> a" "a < 256" "0 \<le> b" "b < 256"
  shows "0 \<le> js_xor a b \<and> js_xor a b < 256"
proof -
  have "a XOR b < 2 ^ 8" using assms by (intro XOR_upper) simp_all
  then show ?thesis using assms by (simp add: js_xor_def to_int32_small)
qed

lemma seed_v_range:
  assumes "0 \<le> i" "i < 256"
  shows "0 \<le> seed_v s p_init i \<and> seed_v s p_init i < 256"
proof -
  have "nat i < length p_init" using assms by (simp add: length_p_init)
  then have r: "0 \<le> p_init ! nat i \<and> p_init ! nat i < 256"
    using p_init_range by (simp add: list_all_length)
  have ix: "js_index p_init i = Some (p_init ! nat i)"
    using assms by (simp add: js_index_def length_p_init)
  show ?thesis
    using r js_xor_range js_and_255_range
    by (simp add: seed_v_def ix Let_def)
qed

lemma js_rem_12_range: "0 \<le> v \<Longrightarrow> 0 \<le> js_rem v 12 \<and> js_rem v 12 < 12"
  by (cases "v = 0") (simp_all add: js_rem_def)

lemma grad3_at:
  assumes "0 \<le> v"
  shows "\<exists>g. js_index grad3_init (js_rem v 12) = Some g"
  using js_rem_12_range [OF assms] by (simp add: js_index_def grad3_init_def)

lemma seed_step_p [simp]: "p (seed_step s i n) = p n"
  by (simp add: seed_step_def Let_def)

lemma seed_step_grad3 [simp]: "grad3 (seed_step s i n) = grad3 n"
  by (simp add: seed_step_def Let_def)

lemma fold_seed_step_p [simp]: "p (fold (seed_step s) xs n) = p n"
  by (induction xs arbitrary: n) simp_all

lemma fold_seed_step_grad3 [simp]: "grad3 (fold (seed_step s) xs n) = grad3 n"
  by (induction xs arbitrary: n) simp_all

lemma perm_seed_step:
  "perm (seed_step s x n) k =
    (if k = int x \<or> k = int x + 256 then Some (seed_v s (p n) (int x)) else perm n k)"
  by (simp add: seed_step_def Let_def)

lemma gradP_seed_step:
  "gradP (seed_step s x n) k =
    (if k = int x \<or> k = int x + 256 then js_index (grad3 n) (js_rem (seed_v s (p n) (int x)) 12)
     else gradP n k)"
  by (simp add: seed_step_def Let_def)

lemma seeded_key_Cons:
  "seeded_key (x # xs) k \<longleftrightarrow> (k = int x \<or> k = int x + 256) \<or> seeded_key xs k"
  by (auto simp: seeded_key_def)

lemma key_mod: "x < 256 \<Longrightarrow> k = int x \<or> k = int x + 256 \<Longrightarrow> k mod 256 = int x"
  by auto

lemma fold_seed_step_perm:
  assumes "\<forall>i\<in>set xs. i < 256"
  shows "perm (fold (seed_step s) xs n) k =
    (if seeded_key xs k then Some (seed_v s (p n) (k mod 256)) else perm n k)"
  using assms
proof (induction xs arbitrary: n)
  case Nil
  show ?case by (simp add: seeded_key_def)
next
  case (Cons x xs)
  have x: "x < 256" using Cons.prems by simp
  have ih: "perm (fold (seed_step s) xs (seed_step s x n)) k =
      (if seeded_key xs k then Some (seed_v s (p n) (k mod 256)) else perm (seed_step s x n) k)"
    using Cons.IH [of "seed_step s x n"] Cons.prems by simp
  show ?case
  proof (cases "k = int x \<or> k = int x + 256")
    case True
    then have "k mod 256 = int x" using x by (rule key_mod [rotated])
    then show ?thesis using True by (simp add: ih perm_seed_step seeded_key_Cons)
  next
    case False
    then show ?thesis by (simp add: ih perm_seed_step seeded_key_Cons)
  qed
qed

lemma fold_seed_step_gradP:
  assumes "\<forall>i\<in>set xs. i < 256"
  shows "gradP (fold (seed_step s) xs n) k =
    (if seeded_key xs k then js_index (grad3 n) (js_rem (seed_v s (p n) (k mod 256)) 12)
     else gradP n k)"
  using assms
proof (induction xs arbitrary: n)
  case Nil
  show ?case by (simp add: seeded_key_def)
next
  case (Cons x xs)
  have x: "x < 256" using Cons.prems by simp
  have ih: "gradP (fold (seed_step s) xs (seed_step s x n)) k =
      (if seeded_key xs k then js_index (grad3 n) (js_rem (seed_v s (p n) (k mod 256)) 12)
       else gradP (seed_step s x n) k)"
    using Cons.IH [of "seed_step s x n"] Cons.prems by simp
  show ?case
  proof (cases "k = int x \<or> k = int x + 256")
    case True
    then have "k mod 256 = int x" using x by (rule key_mod [rotated])
    then show ?thesis using True by (simp add: ih gradP_seed_step seeded_key_Cons)
  next
    case False
    then show ?thesis by (simp add: ih gradP_seed_step seeded_key_Cons)
  qed
qed

lemma seeded_key_upt: "seeded_key [0..<256] k \<longleftrightarrow> 0 \<le> k \<and> k < 512"
proof
  assume "seeded_key [0..<256] k"
  then show "0 \<le> k \<and> k < 512" by (auto simp: seeded_key_def)
next
  assume k: "0 \<le> k \<and> k < 512"
  show "seeded_key [0..<256] k"
  proof (cases "k < 256")
    case True
    then have "nat k \<in> set [0..<256] \<and> k = int (nat k)" using k by simp
    then show ?thesis unfolding seeded_key_def by blast
  next
    case False
    then have "nat (k - 256) \<in> set [0..<256] \<and> k = int (nat (k - 256)) + 256" using k by simp
    then show ?thesis unfolding seeded_key_def by blast
  qed
qed

lemma perm_seed:
  "perm (seed s0 n) k =
    (if 0 \<le> k \<and> k < 512 then Some (seed_v (seed_mix s0) (p n) (k mod 256)) else perm n k)"
  by (simp add: seed_def fold_seed_step_perm seeded_key_upt)

lemma gradP_seed:
  "gradP (seed s0 n) k =
    (if 0 \<le> k \<and> k < 512
     then js_index (grad3 n) (js_rem (seed_v (seed_mix s0) (p n) (k mod 256)) 12)
     else gradP n k)"
  by (simp add: seed_def fold_seed_step_gradP seeded_key_upt)


lemma p_seed [simp]: "p (seed s0 n) = p n"
  by (simp add: seed_def)

lemma grad3_seed [simp]: "grad3 (seed s0 n) = grad3 n"
  by (simp add: seed_def)

lemma seed_idem: "seed s0 (seed s0 n) = seed s0 n"
proof (rule Noise.equality)
  show "perm (seed s0 (seed s0 n)) = perm (seed s0 n)"
    by (rule ext) (simp add: perm_seed)
  show "gradP (seed s0 (seed s0 n)) = gradP (seed s0 n)"
    by (rule ext) (simp add: gradP_seed)
qed simp_all

lemma built_seed: "built n \<Longrightarrow> built (seed s0 n)"
  by (simp add: built_def perm_seed gradP_seed)

lemma built_new_Noise: "built (new_Noise s0)"
  by (simp add: new_Noise_def built_def perm_seed gradP_seed)

lemma built_reseed: "built n \<Longrightarrow> built (reseed n seeds)"
  unfolding reseed_def by (induction seeds arbitrary: n) (simp_all add: built_seed)

lemma seed_built: 
  assumes "built n"
  shows "seed s0 n = new_Noise s0"
proof (rule Noise.equality)
  show "perm (seed s0 n) = perm (new_Noise s0)"
    using assms by (intro ext) (simp add: new_Noise_def perm_seed built_def)
  show "gradP (seed s0 n) = gradP (new_Noise s0)"
    using assms by (intro ext) (simp add: new_Noise_def gradP_seed built_def)
qed (use assms in \<open>simp_all add: new_Noise_def built_def\<close>)

lemma reseed_cases:
  "\<exists>s. reseed (new_Noise s0) seeds = new_Noise s"
proof (cases seeds rule: rev_cases)
  case Nil
  then show ?thesis by (auto simp: reseed_def)
next
  case (snoc ys y)
  have "reseed (new_Noise s0) seeds = seed y (reseed (new_Noise s0) ys)"
    by (simp add: snoc reseed_def)
  also have "\<dots> = new_Noise y"
    by (rule seed_built) (rule built_reseed [OF built_new_Noise])
  finally show ?thesis by blast
qed

lemma perm_new_Noise:
  assumes "0 \<le> k" "k < 512"
  shows "\<exists>v. perm (new_Noise s0) k = Some v \<and> 0 \<le> v \<and> v < 256"
proof -
  have "0 \<le> k mod 256 \<and> k mod 256 < 256" by simp
  then show ?thesis
    using assms seed_v_range [of "k mod 256" "seed_mix s0"]
    by (simp add: new_Noise_def perm_seed)
qed

lemma gradP_new_Noise:
  assumes "0 \<le> k" "k < 512"
  shows "\<exists>g. gradP (new_Noise s0) k = Some g"
proof -
  have "0 \<le> seed_v (seed_mix s0) p_init (k mod 256)"
    using seed_v_range [of "k mod 256" "seed_mix s0"] by simp
  then show ?thesis
    using assms grad3_at by (simp add: new_Noise_def gradP_seed)
qed

lemma cell_range: "0 \<le> cell v \<and> cell v < 256"
  by (simp add: cell_def js_and_255_range)

lemma gradP_at_new_Noise:
  assumes "0 \<le> X" "X \<le> 256" "0 \<le> Y" "Y \<le> 256"
  shows "\<exists>g. gradP_at (new_Noise s0) X (perm (new_Noise s0) Y) = Some g"
proof -
  obtain v where v: "perm (new_Noise s0) Y = Some v" "0 \<le> v" "v < 256"
    using perm_new_Noise [of Y s0] assms by auto
  have "\<exists>g. gradP (new_Noise s0) (X + v) = Some g"
    using assms v by (intro gradP_new_Noise) simp_all
  then show ?thesis by (simp add: gradP_at_def v)
qed

lemma perlin2_new_Noise:
  "\<exists>g00 g01 g10 g11.
     perlin2 (new_Noise s0) x0 y0 =
       Inr (lerp (lerp (dot2 g00 (x0 - of_int \<lfloor>x0\<rfloor>) (y0 - of_int \<lfloor>y0\<rfloor>))
                       (dot2 g10 (x0 - of_int \<lfloor>x0\<rfloor> - 1) (y0 - of_int \<lfloor>y0\<rfloor>))
                       (fade (x0 - of_int \<lfloor>x0\<rfloor>)))
                 (lerp (dot2 g01 (x0 - of_int \<lfloor>x0\<rfloor>) (y0 - of_int \<lfloor>y0\<rfloor> - 1))
                       (dot2 g11 (x0 - of_int \<lfloor>x0\<rfloor> - 1) (y0 - of_int \<lfloor>y0\<rfloor> - 1))
                       (fade (x0 - of_int \<lfloor>x0\<rfloor>)))
                 (fade (y0 - of_int \<lfloor>y0\<rfloor>)))"
proof -
  let ?n = "new_Noise s0"
  have X: "0 \<le> cell x0" "cell x0 \<le> 256" "0 \<le> cell x0 + 1" "cell x0 + 1 \<le> 256"
    using cell_range [of x0] by simp_all
  have Y: "0 \<le> cell y0" "cell y0 \<le> 256" "0 \<le> cell y0 + 1" "cell y0 + 1 \<le> 256"
    using cell_range [of y0] by simp_all
  obtain g00 where g00: "gradP_at ?n (cell x0) (perm ?n (cell y0)) = Some g00"
    using gradP_at_new_Noise [OF X(1,2) Y(1,2)] by blast
  obtain g01 where g01: "gradP_at ?n (cell x0) (perm ?n (cell y0 + 1)) = Some g01"
    using gradP_at_new_Noise [OF X(1,2) Y(3,4)] by blast
  obtain g10 where g10: "gradP_at ?n (cell x0 + 1) (perm ?n (cell y0)) = Some g10"
    using gradP_at_new_Noise [OF X(3,4) Y(1,2)] by blast
  obtain g11 where g11: "gradP_at ?n (cell x0 + 1) (perm ?n (cell y0 + 1)) = Some g11"
    using gradP_at_new_Noise [OF X(3,4) Y(3,4)] by blast
  have "perlin2 ?n x0 y0 =
       Inr (lerp (lerp (dot2 g00 (x0 - of_int \<lfloor>x0\<rfloor>) (y0 - of_int \<lfloor>y0\<rfloor>))
                       (dot2 g10 (x0 - of_int \<lfloor>x0\<rfloor> - 1) (y0 - of_int \<lfloor>y0\<rfloor>))
                       (fade (x0 - of_int \<lfloor>x0\<rfloor>)))
                 (lerp (dot2 g01 (x0 - of_int \<lfloor>x0\<rfloor>) (y0 - of_int \<lfloor>y0\<rfloor> - 1))
                       (dot2 g11 (x0 - of_int \<lfloor>x0\<rfloor> - 1) (y0 - of_int \<lfloor>y0\<rfloor> - 1))
                       (fade (x0 - of_int \<lfloor>x0\<rfloor>)))
                 (fade (y0 - of_int \<lfloor>y0\<rfloor>)))"
    by (simp add: perlin2_def Let_def g00 g01 g10 g11)
  then show ?thesis by blast
qed

lemma dot2_zero [simp]: "dot2 g 0 0 = 0"
  by (cases g) simp

lemma perlin2_new_Noise_int: "perlin2 (new_Noise s0) (of_int a) (of_int b) = Inr 0"
  using perlin2_new_Noise [of s0 "of_int a" "of_int b"]
  by (auto simp: lerp_def fade_def)


lemma reseed_Cons: "reseed n (s # ss) = reseed (seed s n) ss"
  by (simp add: reseed_def)

lemma reseed_replicate: "reseed n (s # replicate k s) = seed s n"
proof (induction k arbitrary: n)
  case 0
  show ?case by (simp add: reseed_def)
next
  case (Suc k)
  have "reseed n (s # replicate (Suc k) s) = reseed (seed s n) (s # replicate k s)"
    by (simp add: reseed_Cons)
  also have "\<dots> = seed s (seed s n)" by (rule Suc)
  finally show ?case by (simp add: seed_idem)
qed

lemma dom_perm_new_Noise: "dom (perm (new_Noise s0)) = {0..511}"
proof (rule set_eqI)
  fix k :: int
  show "k \<in> dom (perm (new_Noise s0)) \<longleftrightarrow> k \<in> {0..511}"
  proof (cases "0 \<le> k \<and> k < 512")
    case True
    then show ?thesis using perm_new_Noise [of k s0] by auto
  next
    case False
    then have "perm (new_Noise s0) k = None" using built_new_Noise [of s0] by (simp add: built_def)
    then show ?thesis using False by auto
  qed
qed

lemma dom_gradP_new_Noise: "dom (gradP (new_Noise s0)) = {0..511}"
proof (rule set_eqI)
  fix k :: int
  show "k \<in> dom (gradP (new_Noise s0)) \<longleftrightarrow> k \<in> {0..511}"
  proof (cases "0 \<le> k \<and> k < 512")
    case True
    then show ?thesis using gradP_new_Noise [of k s0] by auto
  next
    case False
    then have "gradP (new_Noise s0) k = None" using built_new_Noise [of s0] by (simp add: built_def)
    then show ?thesis using False by auto
  qed
qed

text \<open>
  Claim C4. At every input whose two coordinates are integers, \<open>perlin2\<close> returns
  exactly 0, for the noise object of any seed and after any further calls of \<open>seed\<close>.
\<close>

theorem perlin2_integer_zero:
  "perlin2 (reseed (new_Noise s0) seeds) (of_int a) (of_int b) = Inr 0"
proof -
  obtain s where "reseed (new_Noise s0) seeds = new_Noise s"
    using reseed_cases by blast
  then show ?thesis by (simp add: perlin2_new_Noise_int)
qed

lemma perlin2_reads_tables:
  assumes "\<And>k. 0 \<le> k \<Longrightarrow> k < 512 \<Longrightarrow> perm n k = perm n' k"
    and "\<And>k. 0 \<le> k \<Longrightarrow> k < 512 \<Longrightarrow> gradP n k = gradP n' k"
    and "\<And>k. 0 \<le> k \<Longrightarrow> k \<le> 256 \<Longrightarrow> \<exists>v. perm n' k = Some v \<and> 0 \<le> v \<and> v < 256"
  shows "perlin2 n x y = perlin2 n' x y"
proof -
  have X: "0 \<le> cell x" "cell x < 256" and Y: "0 \<le> cell y" "cell y < 256"
    using cell_range [of x] cell_range [of y] by simp_all
  have g: "gradP_at n X (perm n k) = gradP_at n' X (perm n' k)"
    if kX: "0 \<le> k" "k \<le> 256" "0 \<le> X" "X \<le> 256" for k X
  proof -
    obtain v where v: "perm n' k = Some v" "0 \<le> v" "v < 256" using assms(3) kX by blast
    have "perm n k = Some v" using assms(1) [of k] kX v by simp
    moreover have "gradP n (X + v) = gradP n' (X + v)" using assms(2) kX v by simp
    ultimately show ?thesis by (simp add: gradP_at_def v)
  qed
  have e: "gradP_at n (cell x) (perm n (cell y)) = gradP_at n' (cell x) (perm n' (cell y))"
    "gradP_at n (cell x) (perm n (cell y + 1)) = gradP_at n' (cell x) (perm n' (cell y + 1))"
    "gradP_at n (cell x + 1) (perm n (cell y)) = gradP_at n' (cell x + 1) (perm n' (cell y))"
    "gradP_at n (cell x + 1) (perm n (cell y + 1)) = gradP_at n' (cell x + 1) (perm n' (cell y + 1))"
    using X Y by (simp_all add: g)
  show ?thesis unfolding perlin2_def Let_def e by (rule refl)
qed

lemma perlin2_seed_any_tables:
  "perlin2 (seed s \<lparr>grad3 = grad3_init, p = p_init, perm = pm, gradP = gp\<rparr>) x y =
   perlin2 (new_Noise s) x y"
proof (rule perlin2_reads_tables)
  fix k :: int assume "0 \<le> k" "k < 512"
  then show "perm (seed s \<lparr>grad3 = grad3_init, p = p_init, perm = pm, gradP = gp\<rparr>) k =
      perm (new_Noise s) k"
    by (simp add: new_Noise_def perm_seed)
next
  fix k :: int assume "0 \<le> k" "k < 512"
  then show "gradP (seed s \<lparr>grad3 = grad3_init, p = p_init, perm = pm, gradP = gp\<rparr>) k =
      gradP (new_Noise s) k"
    by (simp add: new_Noise_def gradP_seed)
next
  fix k :: int assume "0 \<le> k" "k \<le> 256"
  then show "\<exists>v. perm (new_Noise s) k = Some v \<and> 0 \<le> v \<and> v < 256"
    by (intro perm_new_Noise) simp_all
qed

lemma seed_restricted_tables:
  "seed s \<lparr>grad3 = grad3_init, p = p_init, perm = pm |` {0..511}, gradP = gp |` {0..511}\<rparr> =
   new_Noise s"
  by (rule seed_built) (simp add: built_def restrict_map_def)

lemma seed_mix_0: "seed_mix 0 = 0"
  by (simp add: seed_mix_def js_or_def js_shl_def to_int32_def)

lemma seed_mix_1: "seed_mix 1 = 257"
  by (simp add: seed_mix_def js_or_def js_shl_def to_int32_def)

lemma perm_new_Noise_0: "perm (new_Noise 0) 0 = Some 151"
  by (simp add: new_Noise_def perm_seed seed_mix_0 seed_v_def js_index_def p_init_def
      js_and_def js_xor_def js_shr_def to_int32_def)

lemma perm_new_Noise_1: "perm (new_Noise 1) 0 = Some 150"
  by (simp add: new_Noise_def perm_seed seed_mix_1 seed_v_def js_index_def p_init_def
      js_and_def js_xor_def js_shr_def to_int32_def)

text \<open>
  Claim C5. \<open>seed\<close> is idempotent: seeding twice, or any number of times, with the same
  value gives the state of seeding once. It replaces the whole state of the tables: after
  \<open>seed s\<close> on any noise object, each of the 512 entries of \<open>perm\<close> and of \<open>gradP\<close> is
  the value computed from \<open>s\<close>, \<open>p\<close> and \<open>grad3\<close> alone. So a noise object with the
  literal tables of the constructor, whatever its 512 entries held before, is after
  \<open>seed s\<close> the object that the constructor builds from \<open>s\<close>, and \<open>perlin2\<close> gives
  the same result on both at every input (also when entries beyond the 512 are set). For
  instance entry 0 of \<open>perm\<close> is 151 after seed 0 and 150 after seed 1. Two noise
  objects, whatever their first seeds and the seeds they were given since, are equal after
  \<open>seed s\<close>, and \<open>perlin2\<close> gives the same result on them at every input.
\<close>

theorem seed_replaces_state:
  "seed s (seed s n) = seed s n \<and>
   reseed n (replicate (Suc k) s) = seed s n \<and>
   map (perm (seed s n)) [0..511] =
     map (\<lambda>k. Some (seed_v (seed_mix s) (p n) (k mod 256))) [0..511] \<and>
   map (gradP (seed s n)) [0..511] =
     map (\<lambda>k. js_index (grad3 n) (js_rem (seed_v (seed_mix s) (p n) (k mod 256)) 12)) [0..511] \<and>
   seed s \<lparr>grad3 = grad3_init, p = p_init, perm = pm |` {0..511}, gradP = gp |` {0..511}\<rparr> =
     new_Noise s \<and>
   perlin2 (seed s \<lparr>grad3 = grad3_init, p = p_init, perm = pm, gradP = gp\<rparr>) x y =
     perlin2 (new_Noise s) x y \<and>
   perm (new_Noise 0) 0 = Some 151 \<and> perm (new_Noise 1) 0 = Some 150 \<and>
   seed s (reseed (new_Noise a) h1) = seed s (reseed (new_Noise b) h2) \<and>
   perlin2 (seed s (reseed (new_Noise a) h1)) x y = perlin2 (seed s (reseed (new_Noise b) h2)) x y"
proof -
  have "seed s (reseed (new_Noise a) h1) = new_Noise s"
    by (rule seed_built) (rule built_reseed [OF built_new_Noise])
  moreover have "seed s (reseed (new_Noise b) h2) = new_Noise s"
    by (rule seed_built) (rule built_reseed [OF built_new_Noise])
  moreover have "map (perm (seed s n)) [0..511] =
     map (\<lambda>k. Some (seed_v (seed_mix s) (p n) (k mod 256))) [0..511]"
    by (rule map_cong) (simp_all add: perm_seed)
  moreover have "map (gradP (seed s n)) [0..511] =
     map (\<lambda>k. js_index (grad3 n) (js_rem (seed_v (seed_mix s) (p n) (k mod 256)) 12)) [0..511]"
    by (rule map_cong) (simp_all add: gradP_seed)
  ultimately show ?thesis
    by (simp only: seed_idem reseed_replicate [simplified replicate.simps [symmetric]]
        seed_restricted_tables perlin2_seed_any_tables perm_new_Noise_0 perm_new_Noise_1 simp_thms)
qed

text \<open>
  Claim C9. For the tables of any seed and every input, the accesses of \<open>perlin2\<close> are
  in bounds. The wrapped cell coordinates \<open>X\<close> and \<open>Y\<close> lie in 0..255; \<open>perm\<close> is
  read at \<open>Y\<close> and \<open>Y + 1\<close>, at most 256, where it holds entries \<open>a\<close> and \<open>b\<close> in
  0..255; \<open>gradP\<close> is read at \<open>X + a\<close>, \<open>X + b\<close>, \<open>X + 1 + a\<close> and \<open>X + 1 + b\<close>, at
  most 511, where it holds a gradient. Both tables hold exactly the indices 0..511, and
  \<open>perlin2\<close> returns a value, not an exception.
\<close>

theorem perlin2_in_bounds:
  "let n = reseed (new_Noise s0) seeds; X = cell x; Y = cell y
   in 0 \<le> X \<and> X \<le> 255 \<and> 0 \<le> Y \<and> Y \<le> 255 \<and> Y + 1 \<le> 256 \<and>
      dom (perm n) = {0..511} \<and> dom (gradP n) = {0..511} \<and>
      (\<exists>a b g00 g01 g10 g11 v.
         perm n Y = Some a \<and> perm n (Y + 1) = Some b \<and>
         0 \<le> a \<and> a \<le> 255 \<and> 0 \<le> b \<and> b \<le> 255 \<and>
         0 \<le> X + a \<and> X + 1 + a \<le> 511 \<and> 0 \<le> X + b \<and> X + 1 + b \<le> 511 \<and>
         gradP n (X + a) = Some g00 \<and> gradP n (X + b) = Some g01 \<and>
         gradP n (X + 1 + a) = Some g10 \<and> gradP n (X + 1 + b) = Some g11 \<and>
         perlin2 n x y = Inr v)"
proof -
  obtain s where n: "reseed (new_Noise s0) seeds = new_Noise s"
    using reseed_cases by blast
  let ?n = "new_Noise s"
  have X: "0 \<le> cell x" "cell x \<le> 255" and Y: "0 \<le> cell y" "cell y \<le> 255"
    using cell_range [of x] cell_range [of y] by simp_all
  obtain a where a: "perm ?n (cell y) = Some a" "0 \<le> a" "a < 256"
    using perm_new_Noise [of "cell y" s] Y by auto
  obtain b where b: "perm ?n (cell y + 1) = Some b" "0 \<le> b" "b < 256"
    using perm_new_Noise [of "cell y + 1" s] Y by auto
  obtain g00 where g00: "gradP ?n (cell x + a) = Some g00"
    using gradP_new_Noise [of "cell x + a" s] X a by auto
  obtain g01 where g01: "gradP ?n (cell x + b) = Some g01"
    using gradP_new_Noise [of "cell x + b" s] X b by auto
  obtain g10 where g10: "gradP ?n (cell x + 1 + a) = Some g10"
    using gradP_new_Noise [of "cell x + 1 + a" s] X a by auto
  obtain g11 where g11: "gradP ?n (cell x + 1 + b) = Some g11"
    using gradP_new_Noise [of "cell x + 1 + b" s] X b by auto
  obtain v where v: "perlin2 ?n x y = Inr v"
    using perlin2_new_Noise [of s x y] by blast
  have "\<exists>a b g00 g01 g10 g11 v.
         perm ?n (cell y) = Some a \<and> perm ?n (cell y + 1) = Some b \<and>
         0 \<le> a \<and> a \<le> 255 \<and> 0 \<le> b \<and> b \<le> 255 \<and>
         0 \<le> cell x + a \<and> cell x + 1 + a \<le> 511 \<and> 0 \<le> cell x + b \<and> cell x + 1 + b \<le> 511 \<and>
         gradP ?n (cell x + a) = Some g00 \<and> gradP ?n (cell x + b) = Some g01 \<and>
         gradP ?n (cell x + 1 + a) = Some g10 \<and> gradP ?n (cell x + 1 + b) = Some g11 \<and>
         perlin2 ?n x y = Inr v"
    using a b g00 g01 g10 g11 v X Y
    by (intro exI [of _ a] exI [of _ b] exI [of _ g00] exI [of _ g01] exI [of _ g10]
        exI [of _ g11] exI [of _ v]) simp
  then show ?thesis
    using X Y by (simp add: n Let_def dom_perm_new_Noise dom_gradP_new_Noise)
qed

section \<open>Properties of the grid\<close>




lemma pow2_pos: "0 < pow2 u"
  by (simp add: pow2_def)


lemma round_even_nonpos: "r \<le> 0 \<Longrightarrow> round_even r \<le> 0"
proof -
  assume r: "r \<le> 0"
  have "round_even r \<le> \<lfloor>r\<rfloor> + 1 \<and> (r - of_int \<lfloor>r\<rfloor> < 1 / 2 \<longrightarrow> round_even r = \<lfloor>r\<rfloor>)"
    by (simp add: round_even_def Let_def)
  moreover have "\<lfloor>r\<rfloor> \<le> 0" using r by simp
  moreover have "r - of_int \<lfloor>r\<rfloor> < 1 / 2" if "\<lfloor>r\<rfloor> = 0"
    using r that by simp
  ultimately show ?thesis by (cases "\<lfloor>r\<rfloor> = 0") auto
qed


lemma fl_nonpos: "x \<le> 0 \<Longrightarrow> fl x \<le> 0"
proof -
  assume x: "x \<le> 0"
  let ?u = "exponent \<bar>x\<bar> - 52"
  have "x / pow2 ?u \<le> 0" using x pow2_pos [of ?u] by (simp add: divide_le_0_iff)
  then have "round_even (x / pow2 ?u) \<le> 0" by (rule round_even_nonpos)
  then have "of_int (round_even (x / pow2 ?u)) * pow2 ?u \<le> 0"
    using pow2_pos [of ?u] by (simp add: mult_le_0_iff)
  then show ?thesis by (simp add: fl_def Let_def)
qed

lemma counter_ceil_div: "b \<noteq> 0 \<Longrightarrow> counter (ceil_div a b) = Some [0..\<lceil>fl (a / b)\<rceil>]"
  by (simp add: ceil_div_def)

lemma count_value_ceil_div: "b \<noteq> 0 \<Longrightarrow> count_value (ceil_div a b) = of_int \<lceil>fl (a / b)\<rceil>"
  by (simp add: ceil_div_def)

lemma setLines_nonzero:
  assumes "xGap c \<noteq> 0" "yGap c \<noteq> 0"
  shows "setLines c b = Some (lattice c b)"
  using assms
  by (auto simp: setLines_def Let_def counter_ceil_div count_value_ceil_div lattice_def
      totalLines_def totalPoints_def xStart_def yStart_def)

lemma setLines_pos:
  assumes "0 < xGap c" "0 < yGap c"
  shows "setLines c b = Some (lattice c b)"
  using assms by (intro setLines_nonzero) simp_all


















section \<open>Properties of the simulation\<close>

lemma forEach_Inr:
  "forEach f xs = Inr ys \<Longrightarrow> list_all2 (\<lambda>x y. f x = Inr y) xs ys"
proof (induction xs arbitrary: ys)
  case Nil
  then show ?case by simp
next
  case (Cons x xs)
  then show ?case by (auto split: sum.splits)
qed

lemma forEach_returns:
  "list_all (\<lambda>x. \<exists>y. f x = Inr y) xs \<Longrightarrow> \<exists>ys. forEach f xs = Inr ys"
  by (induction xs) auto

lemma forEach_list_all:
  assumes "forEach f xs = Inr ys" and "\<And>x y. f x = Inr y \<Longrightarrow> P y"
  shows "list_all P ys"
proof -
  have "list_all2 (\<lambda>x y. f x = Inr y) xs ys" using assms(1) by (rule forEach_Inr)
  then show ?thesis using assms(2) by (induction rule: list_all2_induct) auto
qed

lemma forEach_length: "forEach f xs = Inr ys \<Longrightarrow> length ys = length xs"
  by (drule forEach_Inr) (simp add: list_all2_lengthD)

lemma clamp_abs:
  fixes m v :: real
  assumes "0 \<le> m"
  shows "\<bar>min m (max (- m) v)\<bar> \<le> m"
  using assms by (auto simp: min_def max_def abs_if)

lemma movePoint_cursor:
  assumes "0 \<le> maxCursorMove c" and "movePoint c n m t pt = Inr pt'"
  shows "cursor_ok c pt'"
  using assms(2) clamp_abs [OF assms(1)]
  by (auto simp: movePoint_def Let_def cursor_ok_def split: sum.splits)

lemma wave_term:
  fixes a b u v :: real
  assumes "0 \<le> a" "0 \<le> b" "\<bar>u\<bar> \<le> 1" "\<bar>v\<bar> \<le> 1"
  shows "\<bar>u * a + v * b\<bar> \<le> a + b"
proof -
  have "\<bar>u * a\<bar> \<le> 1 * a" unfolding abs_mult using assms by (intro mult_mono) simp_all
  moreover have "\<bar>v * b\<bar> \<le> 1 * b" unfolding abs_mult using assms by (intro mult_mono) simp_all
  ultimately show ?thesis by linarith
qed

lemma movePoint_wave_eq:
  assumes "movePoint c n m t pt = Inr pt'"
  shows "\<exists>v. wave_x pt' = cos (v * 8) * waveAmpX c
            + sin (t * autoWaveSpeed c + pt_x pt * 0.005) * autoWaveIntensity c \<and>
          wave_y pt' = sin (v * 8) * waveAmpY c
            + cos (t * autoWaveSpeed c + pt_y pt * 0.005) * autoWaveIntensity c"
  using assms by (auto simp: movePoint_def Let_def split: sum.splits)

lemma movePoint_wave:
  assumes "0 \<le> waveAmpX c" "0 \<le> waveAmpY c" "0 \<le> autoWaveIntensity c"
    and "movePoint c n m t pt = Inr pt'"
  shows "wave_ok c pt'"
proof -
  obtain v where wx: "wave_x pt' = cos (v * 8) * waveAmpX c
      + sin (t * autoWaveSpeed c + pt_x pt * 0.005) * autoWaveIntensity c"
    and wy: "wave_y pt' = sin (v * 8) * waveAmpY c
      + cos (t * autoWaveSpeed c + pt_y pt * 0.005) * autoWaveIntensity c"
    using movePoint_wave_eq [OF assms(4)] by blast
  show ?thesis
    unfolding wave_ok_def wx wy using assms(1-3)
    by (intro conjI wave_term) simp_all
qed

lemma movePoint_returns: "\<exists>pt'. movePoint c (new_Noise s) m t pt = Inr pt'"
proof -
  obtain v where "perlin2 (new_Noise s) ((pt_x pt + t * waveSpeedX c) * 0.001)
      ((pt_y pt + t * waveSpeedY c) * 0.001) = Inr v"
    using perlin2_new_Noise by blast
  then show ?thesis by (simp add: movePoint_def Let_def)
qed

lemma movePoints_returns: "\<exists>g'. movePoints c (new_Noise s) m t g = Inr g'"
proof -
  have "\<exists>ys. forEach (movePoint c (new_Noise s) m t) pts = Inr ys" for pts
    by (rule forEach_returns) (simp add: list_all_iff movePoint_returns)
  then show ?thesis
    unfolding movePoints_def by (intro forEach_returns) (simp add: list_all_iff)
qed

lemma movePoints_list_all:
  assumes "movePoints c n m t g = Inr g'"
    and "\<And>pt pt'. movePoint c n m t pt = Inr pt' \<Longrightarrow> P pt'"
  shows "list_all (list_all P) g'"
  using assms(1) unfolding movePoints_def
proof (rule forEach_list_all)
  fix pts pts' assume "forEach (movePoint c n m t) pts = Inr pts'"
  then show "list_all P pts'" using assms(2) by (rule forEach_list_all)
qed

lemma movePoints_length: "movePoints c n m t g = Inr g' \<Longrightarrow> length g' = length g"
  unfolding movePoints_def by (rule forEach_length)

lemma setLines_new_points:
  assumes "setLines c b = Some g"
  shows "list_all (list_all (\<lambda>pt. \<exists>x y. pt = new_point x y)) g"
proof -
  have "list_all (list_all (\<lambda>pt. \<exists>x y. pt = new_point x y))
      (map (\<lambda>i. map (\<lambda>j. new_point (f i) (h j)) js) is)" for f h :: "int \<Rightarrow> real" and js "is"
    by (auto simp: list_all_iff)
  then show ?thesis
    using assms by (auto simp: setLines_def Let_def split: option.splits if_splits)
qed

lemma list_all_list_all_mono:
  assumes "list_all (list_all P) g" and "\<And>x. P x \<Longrightarrow> Q x"
  shows "list_all (list_all Q) g"
  using assms by (auto simp: list_all_iff)

lemma linesRef_requestAnimationFrame [simp]:
  "linesRef (requestAnimationFrame st) = linesRef st"
  by (simp add: requestAnimationFrame_def)

lemma noiseRef_requestAnimationFrame [simp]:
  "noiseRef (requestAnimationFrame st) = noiseRef st"
  by (simp add: requestAnimationFrame_def)

lemma linesRef_drawLines [simp]: "linesRef (drawLines c st) = linesRef st"
  by (simp add: drawLines_def split: option.splits)

lemma noiseRef_drawLines [simp]: "noiseRef (drawLines c st) = noiseRef st"
  by (simp add: drawLines_def split: option.splits)

lemma linesRef_updateMouse [simp]: "linesRef (updateMouse x y st) = linesRef st"
  by (simp add: updateMouse_def Let_def)

lemma noiseRef_updateMouse [simp]: "noiseRef (updateMouse x y st) = noiseRef st"
  by (simp add: updateMouse_def Let_def)

text \<open>What an event leaves of the grid: the grid itself, a moved grid or a new grid.\<close>

lemma handle_linesRef:
  assumes "handle c e st = Inr st'"
  shows "linesRef st' = linesRef st \<or>
    (\<exists>m t. movePoints c (noiseRef st) m t (linesRef st) = Inr (linesRef st')) \<or>
    (\<exists>b. setLines c b = Some (linesRef st'))"
proof (cases e)
  case (Frame t)
  show ?thesis
  proof (cases "t - lastTime st < 33")
    case True
    then show ?thesis using assms Frame by (auto simp: tick_def)
  next
    case False
    then obtain g' where
      "movePoints c (noiseRef st) (advance (mouseRef st)) t (linesRef st) = Inr g'"
      "linesRef st' = g'"
      using assms Frame by (auto simp: tick_def Let_def split: sum.splits)
    then show ?thesis by auto
  qed
next
  case (MouseMove x y)
  then show ?thesis using assms by auto
next
  case (TouchMove touches)
  then show ?thesis using assms by (auto split: list.splits)
next
  case (Resize rect)
  then show ?thesis using assms
    by (auto simp: onResize_def setSize_def Let_def split: option.splits)
qed

lemma handle_noiseRef: "handle c e st = Inr st' \<Longrightarrow> noiseRef st' = noiseRef st"
  by (cases e)
    (auto simp: tick_def onResize_def setSize_def Let_def split: sum.splits option.splits list.splits if_splits)

lemma handle_returns:
  assumes "0 < xGap c" "0 < yGap c" "noiseRef st = new_Noise s"
  shows "\<exists>st'. handle c e st = Inr st'"
proof (cases e)
  case (Frame t)
  obtain g' where "movePoints c (new_Noise s) (advance (mouseRef st)) t (linesRef st) = Inr g'"
    using movePoints_returns by blast
  then show ?thesis using Frame assms(3) by (simp add: tick_def Let_def)
next
  case (Resize rect)
  then show ?thesis
    using setLines_pos [OF assms(1,2)] by (simp add: onResize_def setSize_def Let_def)
qed (auto split: list.splits)

lemma run_returns:
  assumes "0 < xGap c" "0 < yGap c"
  shows "noiseRef st = new_Noise s \<Longrightarrow> \<exists>st'. run c st es = Inr st'"
proof (induction es arbitrary: st)
  case Nil
  show ?case by simp
next
  case (Cons e es)
  obtain st1 where st1: "handle c e st = Inr st1"
    using handle_returns [OF assms Cons.prems] by blast
  then have "noiseRef st1 = new_Noise s" using handle_noiseRef Cons.prems by simp
  then show ?case using Cons.IH st1 by simp
qed

text \<open>A property of the points that a new point has and \<open>movePoint\<close> gives holds of every
  grid of a run.\<close>

lemma run_list_all:
  assumes new: "\<And>x y. P (new_point x y)"
    and move: "\<And>n m t pt pt'. movePoint c n m t pt = Inr pt' \<Longrightarrow> P pt'"
  shows "run c st es = Inr st' \<Longrightarrow> list_all (list_all P) (linesRef st)
    \<Longrightarrow> list_all (list_all P) (linesRef st')"
proof (induction es arbitrary: st)
  case Nil
  then show ?case by simp
next
  case (Cons e es)
  then obtain st1 where st1: "handle c e st = Inr st1" and r: "run c st1 es = Inr st'"
    by (auto split: sum.splits)
  have "list_all (list_all P) (linesRef st1)"
    using handle_linesRef [OF st1]
  proof (elim disjE exE)
    assume "linesRef st1 = linesRef st"
    then show ?thesis using Cons.prems(2) by simp
  next
    fix m t assume "movePoints c (noiseRef st) m t (linesRef st) = Inr (linesRef st1)"
    then show ?thesis using move by (rule movePoints_list_all)
  next
    fix b assume "setLines c b = Some (linesRef st1)"
    then have "list_all (list_all (\<lambda>pt. \<exists>x y. pt = new_point x y)) (linesRef st1)"
      by (rule setLines_new_points)
    then show ?thesis
    proof (rule list_all_list_all_mono)
      fix pt assume "\<exists>x y. pt = new_point x y"
      then show "P pt" using new by blast
    qed
  qed
  then show ?case using Cons.IH r by blast
qed

lemma effect_returns:
  assumes "0 < xGap c" "0 < yGap c"
  shows "effect c rect (initial random) =
    Inr (requestAnimationFrame ((initial random)
      \<lparr>ctxRef := Some [], boundingRef := rect,
        linesRef := lattice c rect\<rparr>))"
  using setLines_pos [OF assms] by (simp add: effect_def onResize_def setSize_def Let_def)

lemma effect_state:
  assumes "0 < xGap c" "0 < yGap c"
  shows "\<exists>st0. effect c rect (initial random) = Inr st0 \<and> noiseRef st0 = new_Noise random \<and>
     setLines c rect = Some (linesRef st0)"
proof -
  let ?st0 = "requestAnimationFrame ((initial random)
      \<lparr>ctxRef := Some [], boundingRef := rect,
        linesRef := lattice c rect\<rparr>)"
  have "effect c rect (initial random) = Inr ?st0" using assms by (rule effect_returns)
  moreover have "noiseRef ?st0 = new_Noise random" by (simp add: initial_def)
  moreover have "setLines c rect = Some (linesRef ?st0)"
    using setLines_pos [OF assms, of rect] by simp
  ultimately show ?thesis by blast
qed

lemma setLines_list_all:
  assumes "setLines c b = Some g" and new: "\<And>x y. P (new_point x y)"
  shows "list_all (list_all P) g"
proof -
  have "list_all (list_all (\<lambda>pt. \<exists>x y. pt = new_point x y)) g"
    using assms(1) by (rule setLines_new_points)
  then show ?thesis
  proof (rule list_all_list_all_mono)
    fix pt assume "\<exists>x y. pt = new_point x y"
    then show "P pt" using new by blast
  qed
qed

text \<open>
  Claim C2. With a maximal cursor move that is not negative, every point that
  \<open>movePoints\<close> returns has both components of its cursor offset within the maximal
  cursor move, whatever the grid, the pointer state and the time it was given; and so
  has every point of the grid after any run of the component (frames, pointer and touch
  moves, resizes in any order) from the state its effect sets up. The run returns: no
  step of it throws.
\<close>

theorem cursorOffset_clamped:
  assumes "0 \<le> maxCursorMove c" "0 < xGap c" "0 < yGap c"
  shows "(\<exists>g'. movePoints c (new_Noise s) mouse time g = Inr g' \<and> length g' = length g \<and>
            list_all (list_all (\<lambda>pt. \<bar>cursor_x pt\<bar> \<le> maxCursorMove c \<and>
                                       \<bar>cursor_y pt\<bar> \<le> maxCursorMove c)) g') \<and>
         (\<exists>st0 st. effect c rect (initial random) = Inr st0 \<and> run c st0 events = Inr st \<and>
            list_all (list_all (\<lambda>pt. \<bar>cursor_x pt\<bar> \<le> maxCursorMove c \<and>
                                       \<bar>cursor_y pt\<bar> \<le> maxCursorMove c)) (linesRef st))"
proof
  obtain g' where g': "movePoints c (new_Noise s) mouse time g = Inr g'"
    using movePoints_returns by blast
  have "list_all (list_all (cursor_ok c)) g'"
    using g' movePoint_cursor [OF assms(1)] by (rule movePoints_list_all)
  then show "\<exists>g'. movePoints c (new_Noise s) mouse time g = Inr g' \<and> length g' = length g \<and>
            list_all (list_all (\<lambda>pt. \<bar>cursor_x pt\<bar> \<le> maxCursorMove c \<and>
                                       \<bar>cursor_y pt\<bar> \<le> maxCursorMove c)) g'"
    using g' movePoints_length [OF g'] unfolding cursor_ok_def by blast
next
  obtain st0 where st0: "effect c rect (initial random) = Inr st0"
      "noiseRef st0 = new_Noise random" "setLines c rect = Some (linesRef st0)"
    using effect_state [OF assms(2,3)] by blast
  obtain st where st: "run c st0 events = Inr st"
    using run_returns [OF assms(2,3) st0(2)] by blast
  have new: "cursor_ok c (new_point x y)" for x y
    using assms(1) by (simp add: cursor_ok_def new_point_def)
  have mv: "cursor_ok c pt'" if "movePoint c n m t pt = Inr pt'" for n m t pt pt'
    using assms(1) that by (rule movePoint_cursor)
  have l0: "list_all (list_all (cursor_ok c)) (linesRef st0)"
    using st0(3) new by (rule setLines_list_all)
  have "list_all (list_all (cursor_ok c)) (linesRef st)"
    by (rule run_list_all [where P = "cursor_ok c", OF new mv st l0])
  then show "\<exists>st0 st. effect c rect (initial random) = Inr st0 \<and> run c st0 events = Inr st \<and>
            list_all (list_all (\<lambda>pt. \<bar>cursor_x pt\<bar> \<le> maxCursorMove c \<and>
                                       \<bar>cursor_y pt\<bar> \<le> maxCursorMove c)) (linesRef st)"
    using st0(1) st unfolding cursor_ok_def by blast
qed

theorem cursorOffset_clamped_witness:
  "0 \<le> maxCursorMove config \<and> 0 < xGap config \<and> 0 < yGap config \<and>
   (\<exists>g'. movePoints config (new_Noise 0)
            \<lparr>m_x = 3, m_y = 4, m_lx = 0, m_ly = 0, m_sx = 1, m_sy = 1,
              m_v = 5, m_vs = 60, m_a = 1, m_set = True\<rparr> 40
            [[\<lparr>pt_x = 0, pt_y = 0, wave_x = 0, wave_y = 0,
                cursor_x = 1000, cursor_y = - 1000, cursor_vx = 500, cursor_vy = 0\<rparr>]] = Inr g' \<and>
          length g' = 1 \<and>
          list_all (list_all (\<lambda>pt. \<bar>cursor_x pt\<bar> \<le> 60 \<and> \<bar>cursor_y pt\<bar> \<le> 60)) g') \<and>
   (\<exists>st0 st. effect config \<lparr>rect_width = 320, rect_height = 200, rect_left = 0, rect_top = 0\<rparr>
                (initial (1 / 2)) = Inr st0 \<and>
      run config st0 [MouseMove 160 100, Frame 40, Frame 50, Frame 80,
                      Resize \<lparr>rect_width = 100, rect_height = 100, rect_left = 0, rect_top = 0\<rparr>,
                      TouchMove [(10, 10)], Frame 120] = Inr st \<and>
      list_all (list_all (\<lambda>pt. \<bar>cursor_x pt\<bar> \<le> 60 \<and> \<bar>cursor_y pt\<bar> \<le> 60)) (linesRef st))"
proof -
  have h: "0 \<le> maxCursorMove config" "0 < xGap config" "0 < yGap config"
    by (simp_all add: config_def)
  have m: "maxCursorMove config = 60" by (simp add: config_def)
  show ?thesis
    using h cursorOffset_clamped [OF h, of 0
        "\<lparr>m_x = 3, m_y = 4, m_lx = 0, m_ly = 0, m_sx = 1, m_sy = 1,
              m_v = 5, m_vs = 60, m_a = 1, m_set = True\<rparr>" 40
        "[[\<lparr>pt_x = 0, pt_y = 0, wave_x = 0, wave_y = 0,
                cursor_x = 1000, cursor_y = - 1000, cursor_vx = 500, cursor_vy = 0\<rparr>]]"
        "\<lparr>rect_width = 320, rect_height = 200, rect_left = 0, rect_top = 0\<rparr>" "1 / 2"
        "[MouseMove 160 100, Frame 40, Frame 50, Frame 80,
                      Resize \<lparr>rect_width = 100, rect_height = 100, rect_left = 0, rect_top = 0\<rparr>,
                      TouchMove [(10, 10)], Frame 120]"]
    unfolding m by simp
qed

text \<open>
  Claim C10. With amplitudes and an ambient intensity that are not negative, every point
  that \<open>movePoints\<close> returns has \<open>|wave.x| \<le> waveAmpX + autoWaveIntensity\<close> and
  \<open>|wave.y| \<le> waveAmpY + autoWaveIntensity\<close>, whatever the noise object (hence the
  noise sample), the pointer state, the time and the grid it was given. With the noise
  object of the constructor \<open>movePoints\<close> does return, and the bound holds for every
  grid of every run of the component.
\<close>

theorem waveOffset_bounded:
  assumes "0 \<le> waveAmpX c" "0 \<le> waveAmpY c" "0 \<le> autoWaveIntensity c"
  shows "(\<forall>noise g'. movePoints c noise mouse time g = Inr g' \<longrightarrow>
            list_all (list_all (\<lambda>pt. \<bar>wave_x pt\<bar> \<le> waveAmpX c + autoWaveIntensity c \<and>
                                       \<bar>wave_y pt\<bar> \<le> waveAmpY c + autoWaveIntensity c)) g') \<and>
         (\<exists>g'. movePoints c (new_Noise s) mouse time g = Inr g' \<and> length g' = length g \<and>
            list_all (list_all (\<lambda>pt. \<bar>wave_x pt\<bar> \<le> waveAmpX c + autoWaveIntensity c \<and>
                                       \<bar>wave_y pt\<bar> \<le> waveAmpY c + autoWaveIntensity c)) g') \<and>
         (0 < xGap c \<and> 0 < yGap c \<longrightarrow>
          (\<exists>st0 st. effect c rect (initial random) = Inr st0 \<and> run c st0 events = Inr st \<and>
            list_all (list_all (\<lambda>pt. \<bar>wave_x pt\<bar> \<le> waveAmpX c + autoWaveIntensity c \<and>
                                       \<bar>wave_y pt\<bar> \<le> waveAmpY c + autoWaveIntensity c))
              (linesRef st)))"
proof (intro conjI allI impI)
  have mv: "wave_ok c pt'" if "movePoint c n m t pt = Inr pt'" for n m t pt pt'
    using assms that by (rule movePoint_wave)
  have new: "wave_ok c (new_point x y)" for x y
    using assms by (simp add: wave_ok_def new_point_def)
  {
    fix noise g' assume "movePoints c noise mouse time g = Inr g'"
    then have "list_all (list_all (wave_ok c)) g'" using mv by (rule movePoints_list_all)
    then show "list_all (list_all (\<lambda>pt. \<bar>wave_x pt\<bar> \<le> waveAmpX c + autoWaveIntensity c \<and>
                                       \<bar>wave_y pt\<bar> \<le> waveAmpY c + autoWaveIntensity c)) g'"
      unfolding wave_ok_def .
  }
  {
    obtain g' where g': "movePoints c (new_Noise s) mouse time g = Inr g'"
      using movePoints_returns by blast
    have "list_all (list_all (wave_ok c)) g'" using g' mv by (rule movePoints_list_all)
    then show "\<exists>g'. movePoints c (new_Noise s) mouse time g = Inr g' \<and> length g' = length g \<and>
            list_all (list_all (\<lambda>pt. \<bar>wave_x pt\<bar> \<le> waveAmpX c + autoWaveIntensity c \<and>
                                       \<bar>wave_y pt\<bar> \<le> waveAmpY c + autoWaveIntensity c)) g'"
      using g' movePoints_length [OF g'] unfolding wave_ok_def by blast
  }
  {
    assume gaps: "0 < xGap c \<and> 0 < yGap c"
    obtain st0 where st0: "effect c rect (initial random) = Inr st0"
        "noiseRef st0 = new_Noise random" "setLines c rect = Some (linesRef st0)"
      using effect_state [of c rect random] gaps by blast
    obtain st where st: "run c st0 events = Inr st"
      using run_returns [of c st0 random events] gaps st0(2) by blast
    have l0: "list_all (list_all (wave_ok c)) (linesRef st0)"
      using st0(3) new by (rule setLines_list_all)
    have "list_all (list_all (wave_ok c)) (linesRef st)"
      by (rule run_list_all [where P = "wave_ok c", OF new mv st l0])
    then show "\<exists>st0 st. effect c rect (initial random) = Inr st0 \<and> run c st0 events = Inr st \<and>
            list_all (list_all (\<lambda>pt. \<bar>wave_x pt\<bar> \<le> waveAmpX c + autoWaveIntensity c \<and>
                                       \<bar>wave_y pt\<bar> \<le> waveAmpY c + autoWaveIntensity c))
              (linesRef st)"
      using st0(1) st unfolding wave_ok_def by blast
  }
qed

theorem waveOffset_bounded_witness:
  "0 \<le> waveAmpX config \<and> 0 \<le> waveAmpY config \<and> 0 \<le> autoWaveIntensity config \<and>
   0 < xGap config \<and> 0 < yGap config \<and>
   (\<exists>g'. movePoints config (new_Noise 0)
            \<lparr>m_x = 3, m_y = 4, m_lx = 0, m_ly = 0, m_sx = 1, m_sy = 1,
              m_v = 5, m_vs = 60, m_a = 1, m_set = True\<rparr> 40
            [[\<lparr>pt_x = 0, pt_y = 0, wave_x = 1000, wave_y = - 1000,
                cursor_x = 0, cursor_y = 0, cursor_vx = 0, cursor_vy = 0\<rparr>]] = Inr g' \<and>
          length g' = 1 \<and>
          list_all (list_all (\<lambda>pt. \<bar>wave_x pt\<bar> \<le> 20 + 0.8 \<and> \<bar>wave_y pt\<bar> \<le> 15 + 0.8)) g') \<and>
   (\<exists>st0 st. effect config \<lparr>rect_width = 320, rect_height = 200, rect_left = 0, rect_top = 0\<rparr>
                (initial (1 / 2)) = Inr st0 \<and>
      run config st0 [MouseMove 160 100, Frame 40, Frame 50, Frame 80] = Inr st \<and>
      list_all (list_all (\<lambda>pt. \<bar>wave_x pt\<bar> \<le> 20 + 0.8 \<and> \<bar>wave_y pt\<bar> \<le> 15 + 0.8))
        (linesRef st))"
proof -
  have h: "0 \<le> waveAmpX config" "0 \<le> waveAmpY config" "0 \<le> autoWaveIntensity config"
    and gaps: "0 < xGap config \<and> 0 < yGap config"
    by (simp_all add: config_def)
  have v: "waveAmpX config = 20" "waveAmpY config = 15" "autoWaveIntensity config = 0.8"
    by (simp_all add: config_def)
  note w = waveOffset_bounded [OF h, of
        "\<lparr>m_x = 3, m_y = 4, m_lx = 0, m_ly = 0, m_sx = 1, m_sy = 1,
              m_v = 5, m_vs = 60, m_a = 1, m_set = True\<rparr>" 40
        "[[\<lparr>pt_x = 0, pt_y = 0, wave_x = 1000, wave_y = - 1000,
                cursor_x = 0, cursor_y = 0, cursor_vx = 0, cursor_vy = 0\<rparr>]]" 0
        "\<lparr>rect_width = 320, rect_height = 200, rect_left = 0, rect_top = 0\<rparr>" "1 / 2"
        "[MouseMove 160 100, Frame 40, Frame 50, Frame 80]", unfolded v]
  have a: "\<exists>g'. movePoints config (new_Noise 0)
            \<lparr>m_x = 3, m_y = 4, m_lx = 0, m_ly = 0, m_sx = 1, m_sy = 1,
              m_v = 5, m_vs = 60, m_a = 1, m_set = True\<rparr> 40
            [[\<lparr>pt_x = 0, pt_y = 0, wave_x = 1000, wave_y = - 1000,
                cursor_x = 0, cursor_y = 0, cursor_vx = 0, cursor_vy = 0\<rparr>]] = Inr g' \<and>
          length g' = 1 \<and>
          list_all (list_all (\<lambda>pt. \<bar>wave_x pt\<bar> \<le> 20 + 0.8 \<and> \<bar>wave_y pt\<bar> \<le> 15 + 0.8)) g'"
    using w [THEN conjunct2, THEN conjunct1] by simp
  have b: "\<exists>st0 st. effect config \<lparr>rect_width = 320, rect_height = 200, rect_left = 0, rect_top = 0\<rparr>
                (initial (1 / 2)) = Inr st0 \<and>
      run config st0 [MouseMove 160 100, Frame 40, Frame 50, Frame 80] = Inr st \<and>
      list_all (list_all (\<lambda>pt. \<bar>wave_x pt\<bar> \<le> 20 + 0.8 \<and> \<bar>wave_y pt\<bar> \<le> 15 + 0.8))
        (linesRef st)"
    using w [THEN conjunct2, THEN conjunct2] gaps by blast
  show ?thesis using h gaps a b by blast
qed

text \<open>
  Claim C7. When \<open>tick\<close> is called less than 33 ms after the last accepted frame, it
  only asks for the next frame: the result is the state with a new frame handle, and the
  pointer state, the grid, what has been drawn, \<open>lastTime\<close>, the rectangle and the
  noise object are as before.
\<close>

theorem tick_throttled:
  assumes "t - lastTime st < 33"
  shows "tick c t st =
      Inr (st\<lparr>rafHandle := Suc (rafHandle st), frameIdRef := Some (Suc (rafHandle st))\<rparr>) \<and>
    (\<exists>st'. tick c t st = Inr st' \<and>
       mouseRef st' = mouseRef st \<and> linesRef st' = linesRef st \<and> ctxRef st' = ctxRef st \<and>
       lastTime st' = lastTime st \<and> boundingRef st' = boundingRef st \<and>
       noiseRef st' = noiseRef st \<and> frameIdRef st' = Some (Suc (rafHandle st)))"
  using assms by (simp add: tick_def requestAnimationFrame_def)

theorem tick_throttled_witness:
  "(32::real) - lastTime (initial 0) < 33 \<and>
   tick config 32 (initial 0) = Inr ((initial 0)\<lparr>rafHandle := 1, frameIdRef := Some 1\<rparr>) \<and>
   (\<exists>st'. tick config 32 (initial 0) = Inr st' \<and>
       mouseRef st' = mouseRef (initial 0) \<and> linesRef st' = linesRef (initial 0) \<and>
       ctxRef st' = ctxRef (initial 0) \<and> lastTime st' = lastTime (initial 0) \<and>
       boundingRef st' = boundingRef (initial 0) \<and>
       noiseRef st' = noiseRef (initial 0) \<and> frameIdRef st' = Some 1)"
proof -
  have h: "(32::real) - lastTime (initial 0) < 33" by (simp add: initial_def)
  have r: "rafHandle (initial 0) = 0" by (simp add: initial_def)
  show ?thesis using h tick_throttled [OF h, of config] by (simp add: r)
qed

section \<open>Properties of the renderer\<close>

lemma js_index_last: "js_index (xs @ [x]) (int (length (xs @ [x])) - 1) = Some x"
  by (simp add: js_index_def)

lemma draw_points_suffix:
  "draw_points (pre @ rest @ [lastp]) (length pre) (rest @ [lastp]) =
     map (\<lambda>pt. LineTo (fst (moved pt True)) (snd (moved pt True))) rest @
     [LineTo (fst (moved lastp False)) (snd (moved lastp False)),
      MoveTo (fst (moved lastp False)) (snd (moved lastp False))]"
proof (induction rest arbitrary: pre)
  case Nil
  have "js_index (pre @ [lastp]) (int (length pre)) = Some lastp"
    using js_index_last [of pre lastp] by simp
  then show ?case by (simp add: Let_def)
next
  case (Cons pt rest)
  have "draw_points ((pre @ [pt]) @ rest @ [lastp]) (length (pre @ [pt])) (rest @ [lastp]) =
     map (\<lambda>pt. LineTo (fst (moved pt True)) (snd (moved pt True))) rest @
     [LineTo (fst (moved lastp False)) (snd (moved lastp False)),
      MoveTo (fst (moved lastp False)) (snd (moved lastp False))]"
    by (rule Cons.IH)
  then show ?case by (simp add: Let_def)
qed

lemma draw_line_snoc:
  "draw_line (pts @ [lastp]) =
     MoveTo (fst (moved (hd (pts @ [lastp])) False)) (snd (moved (hd (pts @ [lastp])) False)) #
     map (\<lambda>pt. LineTo (fst (moved pt True)) (snd (moved pt True))) pts @
     [LineTo (fst (moved lastp False)) (snd (moved lastp False)),
      MoveTo (fst (moved lastp False)) (snd (moved lastp False))]"
proof -
  have "draw_points (pts @ [lastp]) 0 (pts @ [lastp]) =
     map (\<lambda>pt. LineTo (fst (moved pt True)) (snd (moved pt True))) pts @
     [LineTo (fst (moved lastp False)) (snd (moved lastp False)),
      MoveTo (fst (moved lastp False)) (snd (moved lastp False))]"
    using draw_points_suffix [of "[]" pts lastp] by simp
  then show ?thesis by (cases pts) (simp_all add: draw_line_def Let_def)
qed

lemma round1_nearest: "\<exists>k::int. round1 v = of_int k / 10 \<and> \<bar>round1 v - v\<bar> \<le> 1 / 20"
proof -
  have "\<bar>of_int \<lfloor>v * 10 + 1 / 2\<rfloor> - v * 10\<bar> \<le> 1 / 2" by linarith
  then have "\<bar>round1 v - v\<bar> \<le> 1 / 20" by (simp add: round1_def js_round_def field_simps)
  then show ?thesis unfolding round1_def by blast
qed

text \<open>
  Claim C8. For a line of points \<open>pts @ [lastp]\<close>, \<open>drawLines\<close> issues a \<open>moveTo\<close>
  (a new subpath, at the first point without its cursor offset), then for every point
  but the last a \<open>lineTo\<close> at base + wave + cursor, each axis rounded to one decimal
  place, then for the last point a \<open>lineTo\<close> and a \<open>moveTo\<close> at base + wave, without
  the cursor offset, rounded the same way. An empty line issues nothing. A frame issues
  \<open>clearRect\<close>, \<open>beginPath\<close>, the stroke settings, the lines one after the other and
  \<open>stroke\<close>. \<open>round1\<close> gives a multiple of 1/10 that is at most 1/20 away.
\<close>

theorem drawLines_path:
  "draw_line [] = [] \<and>
   draw_line (pts @ [lastp]) =
     MoveTo (round1 (pt_x (hd (pts @ [lastp])) + wave_x (hd (pts @ [lastp]))))
            (round1 (pt_y (hd (pts @ [lastp])) + wave_y (hd (pts @ [lastp])))) #
     map (\<lambda>pt. LineTo (round1 (pt_x pt + wave_x pt + cursor_x pt))
                      (round1 (pt_y pt + wave_y pt + cursor_y pt))) pts @
     [LineTo (round1 (pt_x lastp + wave_x lastp)) (round1 (pt_y lastp + wave_y lastp)),
      MoveTo (round1 (pt_x lastp + wave_x lastp)) (round1 (pt_y lastp + wave_y lastp))] \<and>
   ctxRef (drawLines c (st\<lparr>ctxRef := Some issued\<rparr>)) =
     Some (issued @
       [ClearRect 0 0 (rect_width (boundingRef st)) (rect_height (boundingRef st)),
        BeginPath, StrokeStyle (lineColor c), LineWidth 1] @
       concat (map draw_line (linesRef st)) @ [Stroke]) \<and>
   (\<exists>k::int. round1 v = of_int k / 10 \<and> \<bar>round1 v - v\<bar> \<le> 1 / 20)"
proof -
  have "draw_line (pts @ [lastp]) =
     MoveTo (round1 (pt_x (hd (pts @ [lastp])) + wave_x (hd (pts @ [lastp]))))
            (round1 (pt_y (hd (pts @ [lastp])) + wave_y (hd (pts @ [lastp])))) #
     map (\<lambda>pt. LineTo (round1 (pt_x pt + wave_x pt + cursor_x pt))
                      (round1 (pt_y pt + wave_y pt + cursor_y pt))) pts @
     [LineTo (round1 (pt_x lastp + wave_x lastp)) (round1 (pt_y lastp + wave_y lastp)),
      MoveTo (round1 (pt_x lastp + wave_x lastp)) (round1 (pt_y lastp + wave_y lastp))]"
    unfolding draw_line_snoc by (simp add: moved_def Let_def)
  moreover have "draw_line [] = []" by (simp add: draw_line_def)
  moreover have "ctxRef (drawLines c (st\<lparr>ctxRef := Some issued\<rparr>)) =
     Some (issued @
       [ClearRect 0 0 (rect_width (boundingRef st)) (rect_height (boundingRef st)),
        BeginPath, StrokeStyle (lineColor c), LineWidth 1] @
       concat (map draw_line (linesRef st)) @ [Stroke])"
    by (simp add: drawLines_def)
  ultimately show ?thesis using round1_nearest [of v] by blast
qed

section \<open>Properties of the pointer state\<close>

lemma hypot_zero [simp]: "hypot 0 0 = 0"
  by (simp add: hypot_def)

lemma advance_settled: "m_lx (advance m) = m_x (advance m) \<and> m_ly (advance m) = m_y (advance m)"
  by (simp add: advance_def Let_def)

lemma m_vs_advance_settled:
  assumes "m_lx m = m_x m" "m_ly m = m_y m"
  shows "m_vs (advance m) = min 60 (m_vs m + (0 - m_vs m) * 0.06)"
  using assms by (simp add: advance_def Let_def)

lemma decay_abs:
  fixes v :: real
  shows "\<bar>min 60 (v + (0 - v) * 0.06)\<bar> \<le> (47 / 50) * \<bar>v\<bar>"
  by (auto simp: min_def abs_if)

lemma advance_decay:
  assumes "m_lx m = m_x m" "m_ly m = m_y m"
  shows "\<bar>m_vs (advance m)\<bar> \<le> (47 / 50) * \<bar>m_vs m\<bar>"
  unfolding m_vs_advance_settled [OF assms] by (rule decay_abs)

lemma funpow_advance_settled:
  "m_lx ((advance ^^ k) (advance m)) = m_x ((advance ^^ k) (advance m)) \<and>
   m_ly ((advance ^^ k) (advance m)) = m_y ((advance ^^ k) (advance m))"
  by (cases k) (simp_all add: advance_settled)

lemma funpow_advance_decay:
  "\<bar>m_vs ((advance ^^ k) (advance m))\<bar> \<le> (47 / 50) ^ k * \<bar>m_vs (advance m)\<bar>"
proof (induction k)
  case 0
  show ?case by simp
next
  case (Suc k)
  let ?mk = "(advance ^^ k) (advance m)"
  have "\<bar>m_vs (advance ?mk)\<bar> \<le> (47 / 50) * \<bar>m_vs ?mk\<bar>"
    using funpow_advance_settled [of k m] by (intro advance_decay) simp_all
  also have "\<dots> \<le> (47 / 50) * ((47 / 50) ^ k * \<bar>m_vs (advance m)\<bar>)"
    using Suc by simp
  finally show ?case by simp
qed

text \<open>
  Claim C6 as stated fails at the first step: the pointer state of a new component has
  \<open>x = -10\<close> and \<open>lx = 0\<close>, so the first frame measures a displacement of 10 and
  raises the smoothed speed from 0 to 0.6, with no input at all.
\<close>

theorem smoothedSpeed_first_advance_counterexample:
  "\<not> \<bar>m_vs (advance (mouseRef (initial 0)))\<bar> \<le> \<bar>m_vs (mouseRef (initial 0))\<bar>"
proof -
  have "hypot (- 10) 0 = 10" by (simp add: hypot_def)
  then have "m_vs (advance (mouseRef (initial 0))) = 3 / 5"
    by (simp add: advance_def initial_def Let_def)
  then show ?thesis by (simp add: initial_def)
qed

text \<open>
  Claim C6, amended. From a pointer state whose last position is its position, one
  frame without input leaves the smoothed speed no farther from 0. After a frame the
  last position is the position, so from any pointer state every frame after the first
  leaves the smoothed speed no farther from 0, and after \<open>k\<close> further frames its
  magnitude is at most \<open>0.94 ^ k\<close> times what the first frame left.
\<close>

theorem smoothedSpeed_decays:
  "\<bar>m_vs (advance (m\<lparr>m_lx := m_x m, m_ly := m_y m\<rparr>))\<bar> \<le> \<bar>m_vs m\<bar> \<and>
   m_lx (advance m) = m_x (advance m) \<and> m_ly (advance m) = m_y (advance m) \<and>
   \<bar>m_vs (advance ((advance ^^ k) (advance m)))\<bar> \<le> \<bar>m_vs ((advance ^^ k) (advance m))\<bar> \<and>
   \<bar>m_vs ((advance ^^ k) (advance m))\<bar> \<le> (47 / 50) ^ k * \<bar>m_vs (advance m)\<bar>"
proof -
  have a: "\<bar>m_vs (advance m')\<bar> \<le> \<bar>m_vs m'\<bar>" if "m_lx m' = m_x m'" "m_ly m' = m_y m'" for m'
  proof -
    have "\<bar>m_vs (advance m')\<bar> \<le> (47 / 50) * \<bar>m_vs m'\<bar>" using that by (rule advance_decay)
    then show ?thesis by linarith
  qed
  have "\<bar>m_vs (advance (m\<lparr>m_lx := m_x m, m_ly := m_y m\<rparr>))\<bar> \<le> \<bar>m_vs (m\<lparr>m_lx := m_x m, m_ly := m_y m\<rparr>)\<bar>"
    by (rule a) simp_all
  moreover have "\<bar>m_vs (advance ((advance ^^ k) (advance m)))\<bar> \<le> \<bar>m_vs ((advance ^^ k) (advance m))\<bar>"
    using funpow_advance_settled [of k m] by (intro a) simp_all
  ultimately show ?thesis
    using advance_settled [of m] funpow_advance_decay [of k m] by simp
qed

section \<open>The empty grid\<close>





end
